theory Spec2Isabelle
  imports Complex_Main
begin

section \<open>The graph store\<close>

text \<open>
  Both simulation classes keep their state in a \<^verbatim>\<open>networkx.Graph\<close>: an undirected simple
  graph whose nodes carry one attribute (\<^verbatim>\<open>'opinion'\<close> or \<^verbatim>\<open>'opinions'\<close>) and whose edges carry
  the attribute \<^verbatim>\<open>'weight'\<close>.  The graph is modelled as networkx stores it: the node list in
  insertion order and the adjacency dictionary of dictionaries, where the two directions of
  an edge hold the same attribute dictionary.  Floating-point numbers are modelled as
  real numbers without rounding, except in the section on IEEE double arithmetic, which
  repeats the scalar update with every operation rounded.  Every node receives its
  attribute in \<^verbatim>\<open>initialize()\<close> and \<^verbatim>\<open>update()\<close> never deletes one, so the node attribute is
  a total function.
\<close>

type_synonym node = nat
type_synonym edge = "node \<times> node"

datatype error = IndexError | ValueError | KeyError

record 'o graph =
  nodes :: "node list"
  attr :: "node \<Rightarrow> 'o"
  adj :: "node \<Rightarrow> node \<rightharpoonup> real"

text \<open>\<^verbatim>\<open>e in G.edges\<close>: \<^verbatim>\<open>u, v = e; return v in self._adjdict[u]\<close>.\<close>

definition has_edge :: "'o graph \<Rightarrow> edge \<Rightarrow> bool" where
  "has_edge g e = (adj g (fst e) (snd e) \<noteq> None)"

text \<open>\<^verbatim>\<open>G.add_edge(u, v, weight=w)\<close> and \<^verbatim>\<open>G.edges[e]['weight'] = w\<close> write the attribute
  dictionary shared by \<^verbatim>\<open>adj[u][v]\<close> and \<^verbatim>\<open>adj[v][u]\<close>.\<close>

definition put_weight :: "(node \<Rightarrow> node \<rightharpoonup> real) \<Rightarrow> edge \<Rightarrow> real \<Rightarrow> (node \<Rightarrow> node \<rightharpoonup> real)" where
  "put_weight a e w =
     (let a1 = a(fst e := (a (fst e))(snd e \<mapsto> w))
      in a1(snd e := (a1 (snd e))(fst e \<mapsto> w)))"

definition add_edge :: "'o graph \<Rightarrow> edge \<Rightarrow> real \<Rightarrow> 'o graph" where
  "add_edge g e w = g\<lparr>adj := put_weight (adj g) e w\<rparr>"

definition set_weight :: "'o graph \<Rightarrow> edge \<Rightarrow> real \<Rightarrow> 'o graph" where
  "set_weight g e w = g\<lparr>adj := put_weight (adj g) e w\<rparr>"

text \<open>\<^verbatim>\<open>G.remove_edge(u, v)\<close>: \<^verbatim>\<open>del adj[u][v]; if u != v: del adj[v][u]\<close>.  The simulation
  calls it only on the edge whose weight it has just written.\<close>

definition remove_edge :: "'o graph \<Rightarrow> edge \<Rightarrow> 'o graph" where
  "remove_edge g e =
     g\<lparr>adj := (let a1 = (adj g)(fst e := (adj g (fst e))(snd e := None))
                in a1(snd e := (a1 (snd e))(fst e := None)))\<rparr>"

text \<open>\<^verbatim>\<open>G.nodes[n][key] = x\<close>.\<close>

definition set_attr :: "'o graph \<Rightarrow> node \<Rightarrow> 'o \<Rightarrow> 'o graph" where
  "set_attr g n x = g\<lparr>attr := (attr g)(n := x)\<rparr>"

text \<open>
  \<^verbatim>\<open>list(G.edges)\<close>.  The edge view walks the nodes in order and reports, for each node,
  the neighbours that have not been walked yet:
  \<^verbatim>\<open>for n, nbrs in nodes_nbrs: for nbr in nbrs: if nbr not in seen: yield (n, nbr)\<close>, then
  \<^verbatim>\<open>seen[n] = 1\<close>.  The neighbours of a node are enumerated here in node order.
\<close>

fun edge_view :: "(node \<Rightarrow> node \<rightharpoonup> real) \<Rightarrow> node list \<Rightarrow> node list \<Rightarrow> node list \<Rightarrow> edge list" where
  "edge_view a ns seen [] = []"
| "edge_view a ns seen (n # rest) =
     map (Pair n) (filter (\<lambda>nbr. a n nbr \<noteq> None \<and> nbr \<notin> set seen) ns)
       @ edge_view a ns (n # seen) rest"

definition edges :: "'o graph \<Rightarrow> edge list" where
  "edges g = edge_view (adj g) (nodes g) [] (nodes g)"

section \<open>The random source\<close>

text \<open>
  One call of \<^verbatim>\<open>update()\<close> consumes: one uniform draw, then either one
  \<^verbatim>\<open>random.choice\<close> or a sequence of \<^verbatim>\<open>random.sample(nodes, 2)\<close> calls and (in the
  extension) one normal draw.  The draws are inputs of the model.
\<close>

record rnd =
  uniform :: real
  choice :: nat
  sample :: "nat \<Rightarrow> nat \<times> nat"
  normal :: real

text \<open>\<^verbatim>\<open>random.choice(seq)\<close> on a non-empty sequence.\<close>

definition random_choice :: "'a list \<Rightarrow> nat \<Rightarrow> 'a" where
  "random_choice seq k = seq ! (k mod length seq)"

text \<open>\<^verbatim>\<open>random.sample(population, 2)\<close> on a population of at least two: the elements at two
  different positions, the second one taken from what is left without the first.\<close>

definition random_sample :: "'a list \<Rightarrow> nat \<times> nat \<Rightarrow> 'a \<times> 'a" where
  "random_sample population d =
     (let i = fst d mod length population;
          pool = take i population @ drop (Suc i) population
      in (population ! i, pool ! (snd d mod length pool)))"

section \<open>SocialDynamicsSimulation\<close>

record rates =
  alpha :: real
  beta :: real
  gamma :: real

record sds_params = rates +
  network_size :: int

record ('p, 'o) simulation =
  self :: 'p
  graph :: "'o graph"
  step :: nat

type_synonym sds = "(sds_params, real) simulation"

text \<open>\<^verbatim>\<open>SocialDynamicsSimulation.__init__\<close> stores its four arguments.\<close>

definition SocialDynamicsSimulation_init :: "int \<Rightarrow> real \<Rightarrow> real \<Rightarrow> real \<Rightarrow> error + sds_params" where
  "SocialDynamicsSimulation_init n a b c = Inr \<lparr>alpha = a, beta = b, gamma = c, network_size = n\<rparr>"

text \<open>The interaction of \<^verbatim>\<open>update\<close> (the \<^verbatim>\<open>else\<close> branch) on the chosen edge.  The list
  \<^verbatim>\<open>opinions\<close> is read before the loop over \<^verbatim>\<open>[0, 1]\<close> writes the two nodes.  The
  arithmetic here is exact; \<open>sds_write_double\<close> below is the same code with every operation
  rounded to a double.\<close>

definition sds_new_weight :: "sds_params \<Rightarrow> real \<Rightarrow> real list \<Rightarrow> real" where
  "sds_new_weight p weight opinions =
     weight + beta p * weight * (1 - weight) * (1 - gamma p * \<bar>opinions ! 0 - opinions ! 1\<bar>)"

definition sds_write :: "sds \<Rightarrow> edge \<Rightarrow> real \<Rightarrow> sds" where
  "sds_write s e weight =
     (let p = self s;
          opinions = [attr (graph s) (fst e), attr (graph s) (snd e)];
          g1 = set_attr (graph s) (fst e)
                 (opinions ! 0 + alpha p * weight * (opinions ! 1 - opinions ! 0));
          g2 = set_attr g1 (snd e)
                 (opinions ! 1 + alpha p * weight * (opinions ! 0 - opinions ! 1))
      in s\<lparr>graph := set_weight g2 e (sds_new_weight p weight opinions)\<rparr>)"

text \<open>\<^verbatim>\<open>if self.graph.edges[edge]['weight'] < 0.05: self.graph.remove_edge(*edge)\<close>.\<close>

definition prune :: "'o graph \<Rightarrow> edge \<Rightarrow> 'o graph" where
  "prune g e = (if the (adj g (fst e) (snd e)) < 0.05 then remove_edge g e else g)"

definition sds_interact :: "sds \<Rightarrow> edge \<Rightarrow> (error \<times> sds) + sds" where
  "sds_interact s e =
     (case adj (graph s) (fst e) (snd e) of
        None \<Rightarrow> Inl (KeyError, s)
      | Some weight \<Rightarrow>
          (let s3 = sds_write s e weight in Inr (s3\<lparr>graph := prune (graph s3) e\<rparr>)))"

text \<open>The \<^verbatim>\<open>while True\<close> loop of the new-edge branch; the counter is the number of samples
  drawn so far.  It stops at the first sampled pair that is not an edge.\<close>

partial_function (option) sds_new_edge :: "real graph \<Rightarrow> (nat \<Rightarrow> nat \<times> nat) \<Rightarrow> nat \<Rightarrow> edge option" where
  "sds_new_edge g draws k =
     (let new_edge = random_sample (nodes g) (draws k)
      in if \<not> has_edge g new_edge then Some new_edge else sds_new_edge g draws (Suc k))"

text \<open>\<^verbatim>\<open>SocialDynamicsSimulation.update\<close>.  \<^verbatim>\<open>None\<close> is a call that never returns; an
  exception is \<^verbatim>\<open>Inl\<close> with the state the object is left in.\<close>

definition SocialDynamicsSimulation_update :: "rnd \<Rightarrow> sds \<Rightarrow> ((error \<times> sds) + sds) option" where
  "SocialDynamicsSimulation_update r s =
     (if uniform r < 0.01 then
        (if length (nodes (graph s)) < 2 then Some (Inl (ValueError, s))
         else case sds_new_edge (graph s) (sample r) 0 of
                None \<Rightarrow> None
              | Some new_edge \<Rightarrow>
                  Some (Inr (s\<lparr>graph := add_edge (graph s) new_edge 0.5, step := step s + 1\<rparr>)))
      else
        (case edges (graph s) of
           [] \<Rightarrow> Some (Inl (IndexError, s))
         | x # xs \<Rightarrow>
             (case sds_interact s (random_choice (x # xs) (choice r)) of
                Inl err \<Rightarrow> Some (Inl err)
              | Inr s' \<Rightarrow> Some (Inr (s'\<lparr>step := step s' + 1\<rparr>)))))"

section \<open>NetworkSimulationExtension\<close>

text \<open>
  The node attribute \<^verbatim>\<open>'opinions'\<close> holds a numpy array.  Arrays are mutable objects:
  a node attribute is a reference into a store of arrays, \<^verbatim>\<open>+=\<close> and \<^verbatim>\<open>-=\<close> on an array write
  the array in place, and \<^verbatim>\<open>np.clip\<close> and the arithmetic operators build new arrays.
\<close>

type_synonym addr = nat

record nse_params = rates +
  n_size :: int
  m_nodes :: int
  delta :: "real option"
  n_topics :: int

record nse = "(nse_params, addr) simulation" +
  arrays :: "addr \<Rightarrow> real list"
  next_addr :: addr

text \<open>\<^verbatim>\<open>NetworkSimulationExtension.__init__\<close> stores its seven arguments.\<close>

definition NetworkSimulationExtension_init ::
  "int \<Rightarrow> int \<Rightarrow> real \<Rightarrow> real \<Rightarrow> real \<Rightarrow> real option \<Rightarrow> int \<Rightarrow> error + nse_params" where
  "NetworkSimulationExtension_init n m a b c d t =
     Inr \<lparr>alpha = a, beta = b, gamma = c, n_size = n, m_nodes = m, delta = d, n_topics = t\<rparr>"

text \<open>Python's truth value of \<^verbatim>\<open>self.delta\<close>: \<^verbatim>\<open>None\<close> and \<^verbatim>\<open>0.0\<close> are false.\<close>

definition truthy :: "real option \<Rightarrow> bool" where
  "truthy d = (case d of None \<Rightarrow> False | Some x \<Rightarrow> x \<noteq> 0)"

text \<open>The numpy operations of \<^verbatim>\<open>update\<close>, on arrays of one shape (all arrays of a
  simulation have \<^verbatim>\<open>n_topics\<close> entries).  \<^verbatim>\<open>np.mean\<close> of an empty array is \<^verbatim>\<open>nan\<close> in numpy
  and \<open>0\<close> here; the statements about ranges below ask for at least one topic.\<close>

definition np_sub :: "real list \<Rightarrow> real list \<Rightarrow> real list" where
  "np_sub xs ys = map2 (-) xs ys"

definition np_add :: "real list \<Rightarrow> real list \<Rightarrow> real list" where
  "np_add xs ys = map2 (+) xs ys"

definition np_mul :: "real list \<Rightarrow> real list \<Rightarrow> real list" where
  "np_mul xs ys = map2 (*) xs ys"

definition np_absolute :: "real list \<Rightarrow> real list" where
  "np_absolute xs = map abs xs"

definition np_minimum :: "real list \<Rightarrow> real list \<Rightarrow> real list" where
  "np_minimum xs ys = map2 min xs ys"

definition np_maximum :: "real \<Rightarrow> real list \<Rightarrow> real list" where
  "np_maximum c xs = map (max c) xs"

definition np_mean :: "real list \<Rightarrow> real" where
  "np_mean xs = sum_list xs / real (length xs)"

definition clip :: "real \<Rightarrow> real \<Rightarrow> real \<Rightarrow> real" where
  "clip x lo hi = min hi (max lo x)"

definition np_clip :: "real list \<Rightarrow> real \<Rightarrow> real \<Rightarrow> real list" where
  "np_clip xs lo hi = map (\<lambda>x. clip x lo hi) xs"

text \<open>\<^verbatim>\<open>ndarray.__iadd__\<close> and \<^verbatim>\<open>ndarray.__isub__\<close>: the array at the address is overwritten.\<close>

definition iadd :: "nse \<Rightarrow> addr \<Rightarrow> real list \<Rightarrow> nse" where
  "iadd s a xs = s\<lparr>arrays := (arrays s)(a := np_add (arrays s a) xs)\<rparr>"

definition isub :: "nse \<Rightarrow> addr \<Rightarrow> real list \<Rightarrow> nse" where
  "isub s a xs = s\<lparr>arrays := (arrays s)(a := np_sub (arrays s a) xs)\<rparr>"

text \<open>\<^verbatim>\<open>delta_o * (1 if not self.delta else (self.delta * np.maximum(0.05,
  np.minimum(opin, np.absolute(opin - 1)))))\<close>, with \<^verbatim>\<open>opin\<close> the node's current array.\<close>

definition scaled_delta :: "real option \<Rightarrow> real list \<Rightarrow> real list \<Rightarrow> real list" where
  "scaled_delta d delta_o opin =
     (if \<not> truthy d then map (\<lambda>x. x * 1) delta_o
      else np_mul delta_o
             (map ((*) (the d))
                (np_maximum 0.05 (np_minimum opin (np_absolute (map (\<lambda>x. x - 1) opin))))))"

text \<open>The two opinion updates.  \<^verbatim>\<open>delta_o\<close> is a new array computed from the arrays as
  they are before the updates; the updates themselves write the nodes' arrays in place.\<close>

definition update_opinions :: "nse \<Rightarrow> edge \<Rightarrow> real \<Rightarrow> nse" where
  "update_opinions s e wght =
     (let o_a = attr (graph s) (fst e);
          o_b = attr (graph s) (snd e);
          delta_o = map ((*) (alpha (self s) * wght)) (np_sub (arrays s o_b) (arrays s o_a));
          s1 = iadd s (attr (graph s) (fst e))
                 (scaled_delta (delta (self s)) delta_o (arrays s (attr (graph s) (fst e))))
      in isub s1 (attr (graph s1) (snd e))
           (scaled_delta (delta (self s1)) delta_o (arrays s1 (attr (graph s1) (snd e)))))"

text \<open>\<^verbatim>\<open>delta_w\<close>, from the arrays that \<^verbatim>\<open>o_a\<close> and \<^verbatim>\<open>o_b\<close> refer to when the line runs.\<close>

definition delta_w :: "nse_params \<Rightarrow> real \<Rightarrow> real list \<Rightarrow> real list \<Rightarrow> real" where
  "delta_w p wght oa ob =
     beta p * wght * (1 - wght) * (1 - gamma p * np_mean (np_absolute (np_sub oa ob)))"

text \<open>\<^verbatim>\<open>G.nodes[n]['opinions'] = np.clip(G.nodes[n]['opinions'], 0, 1)\<close>: the node gets a new
  array.\<close>

definition clip_opinions :: "nse \<Rightarrow> node \<Rightarrow> nse" where
  "clip_opinions s n =
     s\<lparr>graph := set_attr (graph s) n (next_addr s),
       arrays := (arrays s)(next_addr s := np_clip (arrays s (attr (graph s) n)) 0 1),
       next_addr := Suc (next_addr s)\<rparr>"

definition clip_weight :: "nse \<Rightarrow> edge \<Rightarrow> nse" where
  "clip_weight s e =
     s\<lparr>graph := set_weight (graph s) e (clip (the (adj (graph s) (fst e) (snd e))) 0 1)\<rparr>"

text \<open>The interaction of \<^verbatim>\<open>update\<close> (the first branch) on the chosen edge, up to the
  removal test.  The names \<^verbatim>\<open>o_a\<close> and \<^verbatim>\<open>o_b\<close> are bound to the nodes' arrays before the
  opinion updates and are read again for \<^verbatim>\<open>delta_w\<close> after them.\<close>

definition nse_write :: "nse \<Rightarrow> edge \<Rightarrow> real \<Rightarrow> nse" where
  "nse_write s e wght =
     (let o_a = attr (graph s) (fst e);
          o_b = attr (graph s) (snd e);
          s2 = update_opinions s e wght;
          dw = delta_w (self s2) wght (arrays s2 o_a) (arrays s2 o_b);
          s3 = s2\<lparr>graph := set_weight (graph s2) e
                             (the (adj (graph s2) (fst e) (snd e)) + dw)\<rparr>
      in if truthy (delta (self s3))
         then clip_weight (clip_opinions (clip_opinions s3 (fst e)) (snd e)) e
         else s3)"

definition nse_interact :: "nse \<Rightarrow> edge \<Rightarrow> (error \<times> nse) + nse" where
  "nse_interact s e =
     (case adj (graph s) (fst e) (snd e) of
        None \<Rightarrow> Inl (KeyError, s)
      | Some wght \<Rightarrow>
          (let s4 = nse_write s e wght in Inr (s4\<lparr>graph := prune (graph s4) e\<rparr>)))"

text \<open>The loop \<^verbatim>\<open>for _ in range(50)\<close> of the new-edge branch: the number of rounds left,
  the number of samples drawn so far, and the result with the number of samples drawn.\<close>

fun nse_new_edge :: "nat \<Rightarrow> nat \<Rightarrow> rnd \<Rightarrow> 'o graph \<Rightarrow> 'o graph \<times> nat" where
  "nse_new_edge 0 k r g = (g, k)"
| "nse_new_edge (Suc n) k r g =
     (let edge = random_sample (nodes g) (sample r k)
      in if \<not> has_edge g edge then (add_edge g edge (normal r), Suc k)
         else nse_new_edge n (Suc k) r g)"

text \<open>\<^verbatim>\<open>NetworkSimulationExtension.update\<close>.\<close>

definition NetworkSimulationExtension_update :: "rnd \<Rightarrow> nse \<Rightarrow> (error \<times> nse) + nse" where
  "NetworkSimulationExtension_update r s =
     (if uniform r > 0.01 then
        (case edges (graph s) of
           [] \<Rightarrow> Inl (IndexError, s)
         | x # xs \<Rightarrow>
             (case nse_interact s (random_choice (x # xs) (choice r)) of
                Inl err \<Rightarrow> Inl err
              | Inr s' \<Rightarrow> Inr (s'\<lparr>step := step s' + 1\<rparr>)))
      else
        (if length (nodes (graph s)) < 2 then Inl (ValueError, s)
         else Inr (s\<lparr>graph := fst (nse_new_edge 50 0 r (graph s)), step := step s + 1\<rparr>)))"


section \<open>The scalar class in IEEE double arithmetic\<close>

text \<open>
  Python floats are IEEE 754 binary64 numbers, and every arithmetic operation returns the
  exact result rounded to the nearest double, ties to even.  Where a statement depends on
  the rounding, the scalar update is taken in this arithmetic.  Doubles are modelled as
  the real numbers they denote; overflow to infinity is not modelled, so the statements
  below keep all values far below \<open>2^1024\<close>.
\<close>

text \<open>Rounding to the nearest integer, ties to the even one.\<close>

definition round_even :: "real \<Rightarrow> int" where
  "round_even x =
     (let f = \<lfloor>x\<rfloor>; r = x - of_int f
      in if r < 1/2 then f else if r > 1/2 then f + 1 else if even f then f else f + 1)"

text \<open>The double nearest to a real number: 53 significant bits, the exponent of the
  leading bit not below \<open>-1022\<close> (below that the spacing stays \<open>2^-1074\<close>, the subnormal
  numbers), sign and magnitude rounded alike.  Lemma \<open>double_eval\<close> computes it at a given
  input from the exponent and the rounded significand.\<close>

definition double :: "real \<Rightarrow> real" where
  "double x =
     (let e = max \<lfloor>log 2 \<bar>x\<bar>\<rfloor> (- 1022);
          q = 2 powr of_int (e - 52)
      in sgn x * (q * of_int (round_even (\<bar>x\<bar> / q))))"

text \<open>\<^verbatim>\<open>x + y\<close>, \<^verbatim>\<open>x - y\<close> and \<^verbatim>\<open>x * y\<close> on floats: the exact result, rounded.\<close>

definition dadd :: "real \<Rightarrow> real \<Rightarrow> real" where
  "dadd x y = double (x + y)"

definition dsub :: "real \<Rightarrow> real \<Rightarrow> real" where
  "dsub x y = double (x - y)"

definition dmul :: "real \<Rightarrow> real \<Rightarrow> real" where
  "dmul x y = double (x * y)"

text \<open>The interaction of \<^verbatim>\<open>SocialDynamicsSimulation.update\<close> with every operation rounded,
  in the order Python evaluates the two expressions (products from the left).\<close>

definition sds_new_weight_double :: "sds_params \<Rightarrow> real \<Rightarrow> real list \<Rightarrow> real" where
  "sds_new_weight_double p weight opinions =
     dadd weight
       (dmul (dmul (dmul (beta p) weight) (dsub 1 weight))
          (dsub 1 (dmul (gamma p) \<bar>dsub (opinions ! 0) (opinions ! 1)\<bar>)))"

definition sds_write_double :: "sds \<Rightarrow> edge \<Rightarrow> real \<Rightarrow> sds" where
  "sds_write_double s e weight =
     (let p = self s;
          opinions = [attr (graph s) (fst e), attr (graph s) (snd e)];
          g1 = set_attr (graph s) (fst e)
                 (dadd (opinions ! 0)
                    (dmul (dmul (alpha p) weight) (dsub (opinions ! 1) (opinions ! 0))));
          g2 = set_attr g1 (snd e)
                 (dadd (opinions ! 1)
                    (dmul (dmul (alpha p) weight) (dsub (opinions ! 0) (opinions ! 1))))
      in s\<lparr>graph := set_weight g2 e (sds_new_weight_double p weight opinions)\<rparr>)"

text \<open>The removal test against the float literal \<^verbatim>\<open>0.05\<close>.\<close>

definition prune_double :: "'o graph \<Rightarrow> edge \<Rightarrow> 'o graph" where
  "prune_double g e =
     (if the (adj g (fst e) (snd e)) < double (5/100) then remove_edge g e else g)"

definition sds_interact_double :: "sds \<Rightarrow> edge \<Rightarrow> (error \<times> sds) + sds" where
  "sds_interact_double s e =
     (case adj (graph s) (fst e) (snd e) of
        None \<Rightarrow> Inl (KeyError, s)
      | Some weight \<Rightarrow>
          (let s3 = sds_write_double s e weight
           in Inr (s3\<lparr>graph := prune_double (graph s3) e\<rparr>)))"

text \<open>\<^verbatim>\<open>SocialDynamicsSimulation.update\<close> in double arithmetic; the branch test compares with
  the float literal \<^verbatim>\<open>0.01\<close>, and the weight \<^verbatim>\<open>0.5\<close> of a new edge is a double.\<close>

definition SocialDynamicsSimulation_update_double ::
  "rnd \<Rightarrow> sds \<Rightarrow> ((error \<times> sds) + sds) option" where
  "SocialDynamicsSimulation_update_double r s =
     (if uniform r < double (1/100) then
        (if length (nodes (graph s)) < 2 then Some (Inl (ValueError, s))
         else case sds_new_edge (graph s) (sample r) 0 of
                None \<Rightarrow> None
              | Some new_edge \<Rightarrow>
                  Some (Inr (s\<lparr>graph := add_edge (graph s) new_edge 0.5, step := step s + 1\<rparr>)))
      else
        (case edges (graph s) of
           [] \<Rightarrow> Some (Inl (IndexError, s))
         | x # xs \<Rightarrow>
             (case sds_interact_double s (random_choice (x # xs) (choice r)) of
                Inl err \<Rightarrow> Some (Inl err)
              | Inr s' \<Rightarrow> Some (Inr (s'\<lparr>step := step s' + 1\<rparr>)))))"

section \<open>Ranges, well-formed states and test states\<close>

definition in_unit :: "real \<Rightarrow> bool" where
  "in_unit x = (0 \<le> x \<and> x \<le> 1)"





text \<open>An undirected simple graph as networkx keeps it: the nodes are listed once, the
  adjacency is symmetric and has no loops.\<close>

definition simple_graph :: "'o graph \<Rightarrow> bool" where
  "simple_graph g =
     (distinct (nodes g) \<and>
      (\<forall>u\<in>set (nodes g). \<forall>v\<in>set (nodes g). adj g u v = adj g v u) \<and>
      (\<forall>u\<in>set (nodes g). adj g u u = None))"

definition complete_graph :: "'o graph \<Rightarrow> bool" where
  "complete_graph g =
     (\<forall>u\<in>set (nodes g). \<forall>v\<in>set (nodes g). u \<noteq> v \<longrightarrow> adj g u v \<noteq> None)"

text \<open>The weight that the interaction writes for the chosen edge, read back before the
  removal test.\<close>

definition sds_post_weight :: "sds \<Rightarrow> edge \<Rightarrow> real" where
  "sds_post_weight s e =
     the (adj (graph (sds_write s e (the (adj (graph s) (fst e) (snd e))))) (fst e) (snd e))"

definition nse_post_weight :: "nse \<Rightarrow> edge \<Rightarrow> real" where
  "nse_post_weight s e =
     the (adj (graph (nse_write s e (the (adj (graph s) (fst e) (snd e))))) (fst e) (snd e))"

text \<open>Draws that select the interaction on the first listed edge, and draws that select
  the new-edge branch and sample the first two nodes.\<close>

definition draw_interact :: rnd where
  "draw_interact = \<lparr>uniform = 1/2, choice = 0, sample = (\<lambda>_. (0, 0)), normal = 1/2\<rparr>"

definition draw_new_edge :: "real \<Rightarrow> rnd" where
  "draw_new_edge w = \<lparr>uniform = 1/200, choice = 0, sample = (\<lambda>_. (0, 0)), normal = w\<rparr>"

text \<open>Two nodes joined by one edge, for the scalar class.\<close>

definition sds_pair :: "sds_params \<Rightarrow> real \<Rightarrow> real \<Rightarrow> real \<Rightarrow> sds" where
  "sds_pair p o0 o1 w =
     \<lparr>self = p,
      graph = \<lparr>nodes = [0, 1], attr = (\<lambda>n. if n = 0 then o0 else o1),
               adj = put_weight (\<lambda>_. Map.empty) (0, 1) w\<rparr>,
      step = 0\<rparr>"

text \<open>Two nodes joined by one edge, for the extension: node \<open>n\<close> owns the array at
  address \<open>n\<close>.\<close>

definition nse_pair :: "nse_params \<Rightarrow> real list \<Rightarrow> real list \<Rightarrow> real \<Rightarrow> nse" where
  "nse_pair p o0 o1 w =
     \<lparr>self = p,
      graph = \<lparr>nodes = [0, 1], attr = (\<lambda>n. n),
               adj = put_weight (\<lambda>_. Map.empty) (0, 1) w\<rparr>,
      step = 0,
      arrays = (\<lambda>a. if a = 0 then o0 else if a = 1 then o1 else []),
      next_addr = 2\<rparr>"

text \<open>Two nodes and no edge.\<close>

definition sds_apart :: "sds_params \<Rightarrow> sds" where
  "sds_apart p =
     \<lparr>self = p,
      graph = \<lparr>nodes = [0, 1], attr = (\<lambda>n. if n = 0 then 0 else 1), adj = (\<lambda>_. Map.empty)\<rparr>,
      step = 0\<rparr>"

definition nse_apart :: "nse_params \<Rightarrow> nse" where
  "nse_apart p =
     \<lparr>self = p,
      graph = \<lparr>nodes = [0, 1], attr = (\<lambda>n. n), adj = (\<lambda>_. Map.empty)\<rparr>,
      step = 0,
      arrays = (\<lambda>a. if a = 0 then [0] else if a = 1 then [1] else []),
      next_addr = 2\<rparr>"

text \<open>The parameter sets used below: the defaults of the scalar class, the defaults of the
  extension with one topic, and an extension with flexibility.\<close>

definition sds_defaults :: sds_params where
  "sds_defaults = \<lparr>alpha = 3/100, beta = 3/10, gamma = 4, network_size = 2\<rparr>"

definition nse_defaults :: nse_params where
  "nse_defaults =
     \<lparr>alpha = 3/100, beta = 3/10, gamma = 4, n_size = 2, m_nodes = 1, delta = None,
      n_topics = 1\<rparr>"

definition nse_flexible :: nse_params where
  "nse_flexible =
     \<lparr>alpha = 1/2, beta = 3/10, gamma = 1, n_size = 2, m_nodes = 1, delta = Some 20,
      n_topics = 1\<rparr>"

text \<open>The scalar class with the float literals \<^verbatim>\<open>alpha=0.1\<close> and \<^verbatim>\<open>beta=0.3\<close>.\<close>

definition sds_tenth :: sds_params where
  "sds_tenth = \<lparr>alpha = double (1/10), beta = double (3/10), gamma = 4, network_size = 2\<rparr>"

text \<open>Reading a weight or an opinion from the state that a call of \<^verbatim>\<open>update\<close> returns.\<close>

definition sds_weight_after :: "((error \<times> sds) + sds) option \<Rightarrow> edge \<Rightarrow> real option" where
  "sds_weight_after x e =
     (case x of Some (Inr s') \<Rightarrow> adj (graph s') (fst e) (snd e) | _ \<Rightarrow> None)"

definition sds_opinion_after :: "((error \<times> sds) + sds) option \<Rightarrow> node \<Rightarrow> real option" where
  "sds_opinion_after x n = (case x of Some (Inr s') \<Rightarrow> Some (attr (graph s') n) | _ \<Rightarrow> None)"

definition nse_weight_after :: "(error \<times> nse) + nse \<Rightarrow> edge \<Rightarrow> real option" where
  "nse_weight_after x e = (case x of Inr s' \<Rightarrow> adj (graph s') (fst e) (snd e) | _ \<Rightarrow> None)"

definition nse_opinions_after :: "(error \<times> nse) + nse \<Rightarrow> node \<Rightarrow> real list option" where
  "nse_opinions_after x n =
     (case x of Inr s' \<Rightarrow> Some (arrays s' (attr (graph s') n)) | _ \<Rightarrow> None)"

section \<open>The edge list and the random choices\<close>

lemma edge_view_adj:
  "(u, v) \<in> set (edge_view a ns seen rest) \<Longrightarrow> a u v \<noteq> None \<and> u \<in> set rest \<and> v \<in> set ns"
  by (induction rest arbitrary: seen) auto

lemma edges_adj:
  "e \<in> set (edges g) \<Longrightarrow> has_edge g e \<and> fst e \<in> set (nodes g) \<and> snd e \<in> set (nodes g)"
  using edge_view_adj [of "fst e" "snd e" "adj g" "nodes g" "[]" "nodes g"]
  by (simp add: edges_def has_edge_def)

lemma edge_view_empty:
  "(\<forall>u\<in>set rest. \<forall>v\<in>set ns. a u v = None) \<Longrightarrow> edge_view a ns seen rest = []"
  by (induction rest arbitrary: seen) (auto simp: filter_empty_conv)

lemma random_choice_in: "seq \<noteq> [] \<Longrightarrow> random_choice seq k \<in> set seq"
  by (simp add: random_choice_def)

lemma chosen_edge:
  "edges g \<noteq> [] \<Longrightarrow> e = random_choice (edges g) k \<Longrightarrow>
   has_edge g e \<and> fst e \<in> set (nodes g) \<and> snd e \<in> set (nodes g)"
  using edges_adj [of e g] random_choice_in [of "edges g" k] by simp

section \<open>The branches of update\<close>

lemma sds_update_interaction:
  assumes "\<not> uniform r < 0.01" and "edges (graph s) \<noteq> []"
  shows "SocialDynamicsSimulation_update r s =
     (case sds_interact s (random_choice (edges (graph s)) (choice r)) of
        Inl err \<Rightarrow> Some (Inl err)
      | Inr s' \<Rightarrow> Some (Inr (s'\<lparr>step := step s' + 1\<rparr>)))"
  using assms by (simp add: SocialDynamicsSimulation_update_def split: list.splits)

lemma nse_update_interaction:
  assumes "uniform r > 0.01" and "edges (graph s) \<noteq> []"
  shows "NetworkSimulationExtension_update r s =
     (case nse_interact s (random_choice (edges (graph s)) (choice r)) of
        Inl err \<Rightarrow> Inl err
      | Inr s' \<Rightarrow> Inr (s'\<lparr>step := step s' + 1\<rparr>))"
  using assms by (simp add: NetworkSimulationExtension_update_def split: list.splits)

lemma sds_interact_present:
  "has_edge (graph s) e \<Longrightarrow>
   sds_interact s e =
     Inr ((sds_write s e (the (adj (graph s) (fst e) (snd e))))
            \<lparr>graph := prune (graph (sds_write s e (the (adj (graph s) (fst e) (snd e))))) e\<rparr>)"
  by (auto simp: sds_interact_def has_edge_def Let_def)

lemma nse_interact_present:
  "has_edge (graph s) e \<Longrightarrow>
   nse_interact s e =
     Inr ((nse_write s e (the (adj (graph s) (fst e) (snd e))))
            \<lparr>graph := prune (graph (nse_write s e (the (adj (graph s) (fst e) (snd e))))) e\<rparr>)"
  by (auto simp: nse_interact_def has_edge_def Let_def)

lemma prune_attr: "attr (prune g e) = attr g"
  by (simp add: prune_def remove_edge_def)

lemma prune_has_edge:
  "adj g (fst e) (snd e) \<noteq> None \<Longrightarrow> adj g (snd e) (fst e) \<noteq> None \<Longrightarrow>
   (has_edge (prune g e) e \<longleftrightarrow> \<not> the (adj g (fst e) (snd e)) < 0.05) \<and>
   (has_edge (prune g e) (snd e, fst e) \<longleftrightarrow> \<not> the (adj g (fst e) (snd e)) < 0.05)"
  by (auto simp: prune_def remove_edge_def has_edge_def Let_def)

lemma put_weight_at:
  "put_weight a e w (fst e) (snd e) = Some w" "put_weight a e w (snd e) (fst e) = Some w"
  by (simp_all add: put_weight_def Let_def)

lemma sds_write_weight:
  "adj (graph (sds_write s e w)) (fst e) (snd e) =
     Some (sds_new_weight (self s) w [attr (graph s) (fst e), attr (graph s) (snd e)])"
  "adj (graph (sds_write s e w)) (snd e) (fst e) =
     Some (sds_new_weight (self s) w [attr (graph s) (fst e), attr (graph s) (snd e)])"
  by (simp_all add: sds_write_def set_weight_def Let_def put_weight_at)

section \<open>Ranges under the operations of the interaction\<close>



lemma update_opinions_frame:
  "graph (update_opinions s e w) = graph s"
  "self (update_opinions s e w) = self s"
  "next_addr (update_opinions s e w) = next_addr s"
  "step (update_opinions s e w) = step s"
  by (simp_all add: update_opinions_def iadd_def isub_def Let_def)















section \<open>The new-edge branch and one step of the extension\<close>

lemma random_sample_distinct:
  assumes "distinct population" "2 \<le> length population"
  shows "fst (random_sample population d) \<in> set population \<and>
         snd (random_sample population d) \<in> set population \<and>
         fst (random_sample population d) \<noteq> snd (random_sample population d)"
proof -
  define i where "i = fst d mod length population"
  define pool where "pool = take i population @ drop (Suc i) population"
  have "0 < length population" using assms(2) by (cases population) simp_all
  then have i: "i < length population" unfolding i_def by (rule mod_less_divisor)
  have lp: "length pool = length population - 1" using i by (simp add: pool_def)
  then have j: "snd d mod length pool < length pool" using assms(2) by simp
  have pop: "population = take i population @ population ! i # drop (Suc i) population"
    using i by (simp add: id_take_nth_drop [symmetric])
  have "distinct (take i population @ population ! i # drop (Suc i) population)"
    using assms(1) pop by simp
  then have notin: "population ! i \<notin> set pool" by (auto simp: pool_def)
  have sub: "set pool \<subseteq> set population"
    by (auto simp: pool_def dest: in_set_takeD in_set_dropD)
  have mem: "pool ! (snd d mod length pool) \<in> set pool" using j by simp
  have r: "random_sample population d = (population ! i, pool ! (snd d mod length pool))"
    by (simp add: random_sample_def Let_def i_def pool_def)
  show ?thesis using i notin sub mem by (auto simp: r)
qed

lemma nse_new_edge_frame:
  "nodes (fst (nse_new_edge n k r g)) = nodes g \<and> attr (fst (nse_new_edge n k r g)) = attr g"
  by (induction n arbitrary: k) (simp_all add: Let_def add_edge_def)

lemma nse_new_edge_count: "snd (nse_new_edge n k r g) \<le> k + n"
proof (induction n arbitrary: k)
  case 0
  show ?case by simp
next
  case (Suc n)
  show ?case using Suc.IH [of "Suc k"] by (simp add: Let_def)
qed

lemma nse_new_edge_exhausted:
  "(\<forall>i<n. has_edge g (random_sample (nodes g) (sample r (k + i)))) \<Longrightarrow>
   nse_new_edge n k r g = (g, k + n)"
proof (induction n arbitrary: k)
  case 0
  show ?case by simp
next
  case (Suc n)
  have "has_edge g (random_sample (nodes g) (sample r k))" using Suc.prems [rule_format, of 0] by simp
  moreover have "\<forall>i<n. has_edge g (random_sample (nodes g) (sample r (Suc k + i)))"
    using Suc.prems by auto
  ultimately show ?case using Suc.IH [of "Suc k"] by (simp add: Let_def)
qed

lemma nse_new_edge_result:
  "fst (nse_new_edge n k r g) = g \<or>
   (\<exists>i<n. \<not> has_edge g (random_sample (nodes g) (sample r (k + i))) \<and>
      fst (nse_new_edge n k r g) = add_edge g (random_sample (nodes g) (sample r (k + i))) (normal r))"
proof (induction n arbitrary: k)
  case 0
  show ?case by simp
next
  case (Suc n)
  show ?case
  proof (cases "has_edge g (random_sample (nodes g) (sample r k))")
    case True
    from Suc.IH [of "Suc k"] show ?thesis
    proof
      assume "fst (nse_new_edge n (Suc k) r g) = g"
      then show ?thesis using True by (simp add: Let_def)
    next
      assume "\<exists>i<n. \<not> has_edge g (random_sample (nodes g) (sample r (Suc k + i))) \<and>
        fst (nse_new_edge n (Suc k) r g) = add_edge g (random_sample (nodes g) (sample r (Suc k + i))) (normal r)"
      then obtain i where "i < n" "\<not> has_edge g (random_sample (nodes g) (sample r (k + Suc i)))"
        "fst (nse_new_edge n (Suc k) r g) = add_edge g (random_sample (nodes g) (sample r (k + Suc i))) (normal r)"
        by auto
      then have "Suc i < Suc n \<and> \<not> has_edge g (random_sample (nodes g) (sample r (k + Suc i))) \<and>
         fst (nse_new_edge (Suc n) k r g) = add_edge g (random_sample (nodes g) (sample r (k + Suc i))) (normal r)"
        using True by (simp add: Let_def)
      then show ?thesis by blast
    qed
  next
    case False
    then have "0 < Suc n \<and> \<not> has_edge g (random_sample (nodes g) (sample r (k + 0))) \<and>
         fst (nse_new_edge (Suc n) k r g) = add_edge g (random_sample (nodes g) (sample r (k + 0))) (normal r)"
      by (simp add: Let_def)
    then show ?thesis by blast
  qed
qed


section \<open>Claims about one step\<close>

lemma edges_pair: "edges (graph (sds_pair p a b w)) = [(0, 1)]" "edges (graph (nse_pair q x y w)) = [(0, 1)]"
  by (simp_all add: sds_pair_def nse_pair_def edges_def put_weight_def del: not_None_eq)

lemma edges_apart: "edges (graph (sds_apart p)) = []" "edges (graph (nse_apart q)) = []"
  by (simp_all add: sds_apart_def nse_apart_def edges_def)

lemma sds_pair_step:
  "SocialDynamicsSimulation_update draw_interact (sds_pair p a b w) =
     Some (Inr ((sds_write (sds_pair p a b w) (0, 1) w)
        \<lparr>graph := prune (graph (sds_write (sds_pair p a b w) (0, 1) w)) (0, 1), step := 1\<rparr>))"
proof -
  have u: "\<not> uniform draw_interact < 0.01" by (simp add: draw_interact_def)
  have ne: "edges (graph (sds_pair p a b w)) \<noteq> []" by (simp add: edges_pair)
  have c: "random_choice (edges (graph (sds_pair p a b w))) (choice draw_interact) = (0, 1)"
    by (simp add: edges_pair random_choice_def)
  have w: "adj (graph (sds_pair p a b w)) 0 1 = Some w"
    by (simp add: sds_pair_def put_weight_def)
  have st: "step (sds_pair p a b w) = 0" by (simp add: sds_pair_def)
  show ?thesis
    using sds_update_interaction [OF u ne] w
    by (simp add: c sds_interact_def Let_def sds_write_def st)
qed

text \<open>
  Claim C3, as stated, fails.  For the scalar class with \<open>o_i = 0.3\<close>, \<open>o_j = 0\<close>,
  \<open>w = 0.25\<close>, \<open>alpha = 0.03\<close>, \<open>beta = 0.3\<close>, \<open>gamma = 4\<close> the call of \<^verbatim>\<open>update\<close> writes the
  weight \<open>0.25 - 0.01125\<close>: the weight change is \<open>-0.01125\<close>, which is further than
  \<open>1e-9\<close> from the stated \<open>-0.03375\<close>.
\<close>

theorem scenario_weight_delta_differs:
  "sds_weight_after (SocialDynamicsSimulation_update draw_interact (sds_pair sds_defaults (3/10) 0 (1/4))) (0, 1)
     = Some (1/4 + (- 1125/100000)) \<and> \<bar>(- 1125/100000) - (- 3375/100000)\<bar> > (1/10^9 :: real)"
  by (simp only: sds_pair_step) (simp add: sds_weight_after_def sds_write_def set_weight_def set_attr_def
      prune_def put_weight_def sds_new_weight_def sds_defaults_def sds_pair_def Let_def remove_edge_def)

text \<open>
  Claim C3, amended.  In that scenario one interaction changes the opinion of node \<open>i\<close> by
  \<open>-0.00225\<close> (and that of node \<open>j\<close> by the opposite amount) and the weight by
  \<open>-0.01125 = 0.3 * 0.25 * 0.75 * (1 - 4 * 0.3)\<close>, exactly, hence within any tolerance.
\<close>

theorem scenario_deltas:
  "sds_opinion_after (SocialDynamicsSimulation_update draw_interact (sds_pair sds_defaults (3/10) 0 (1/4))) 0
     = Some (3/10 + (- 225/100000)) \<and>
   sds_opinion_after (SocialDynamicsSimulation_update draw_interact (sds_pair sds_defaults (3/10) 0 (1/4))) 1
     = Some (0 - (- 225/100000)) \<and>
   sds_weight_after (SocialDynamicsSimulation_update draw_interact (sds_pair sds_defaults (3/10) 0 (1/4))) (0, 1)
     = Some (1/4 + (- 1125/100000))"
  by (simp only: sds_pair_step) (simp add: sds_weight_after_def sds_opinion_after_def sds_write_def set_weight_def set_attr_def
      prune_def put_weight_def sds_new_weight_def sds_defaults_def sds_pair_def Let_def remove_edge_def)


lemma nse_pair_step:
  "NetworkSimulationExtension_update draw_interact (nse_pair p a b w) =
     Inr ((nse_write (nse_pair p a b w) (0, 1) w)
        \<lparr>graph := prune (graph (nse_write (nse_pair p a b w) (0, 1) w)) (0, 1),
          step := step (nse_write (nse_pair p a b w) (0, 1) w) + 1\<rparr>)"
proof -
  have u: "uniform draw_interact > 0.01" by (simp add: draw_interact_def)
  have ne: "edges (graph (nse_pair p a b w)) \<noteq> []" by (simp add: edges_pair)
  have c: "random_choice (edges (graph (nse_pair p a b w))) (choice draw_interact) = (0, 1)"
    by (simp add: edges_pair random_choice_def)
  have w: "adj (graph (nse_pair p a b w)) 0 1 = Some w"
    by (simp add: nse_pair_def put_weight_def)
  show ?thesis
    using nse_update_interaction [OF u ne] w
    by (simp add: c nse_interact_def Let_def)
qed

text \<open>
  Claim C7.  When the interaction branch is selected and the edge list is empty, the call
  of \<^verbatim>\<open>update\<close> raises (the \<^verbatim>\<open>IndexError\<close> of \<^verbatim>\<open>random.choice\<close> on an empty list) and leaves
  the object as it was: the graph and the step counter are unchanged.  Both classes.
\<close>

theorem empty_edge_set_fails:
  "(edges (graph s) = [] \<and> \<not> uniform r < 0.01 \<longrightarrow>
      SocialDynamicsSimulation_update r s = Some (Inl (IndexError, s))) \<and>
   (edges (graph t) = [] \<and> uniform r' > 0.01 \<longrightarrow>
      NetworkSimulationExtension_update r' t = Inl (IndexError, t))"
  by (simp add: SocialDynamicsSimulation_update_def NetworkSimulationExtension_update_def)

text \<open>The failure on two nodes without an edge.\<close>

theorem empty_edge_set_fails_witness:
  "edges (graph (sds_apart sds_defaults)) = [] \<and> \<not> uniform draw_interact < 0.01 \<and>
   SocialDynamicsSimulation_update draw_interact (sds_apart sds_defaults)
     = Some (Inl (IndexError, sds_apart sds_defaults)) \<and>
   edges (graph (nse_apart nse_defaults)) = [] \<and> uniform draw_interact > 0.01 \<and>
   NetworkSimulationExtension_update draw_interact (nse_apart nse_defaults)
     = Inl (IndexError, nse_apart nse_defaults)"
proof -
  have u: "\<not> uniform draw_interact < 0.01" "uniform draw_interact > 0.01"
    by (simp_all add: draw_interact_def)
  show ?thesis
    using empty_edge_set_fails [of "sds_apart sds_defaults" draw_interact "nse_apart nse_defaults" draw_interact] u
    by (simp add: edges_apart)
qed

text \<open>
  Claim C9, as stated, fails.  Both constructors accept negative \<open>alpha\<close>, \<open>beta\<close>, \<open>gamma\<close>
  and \<open>n_topics = 0\<close> and return the object.
\<close>

theorem init_accepts_negative_coefficients:
  "SocialDynamicsSimulation_init 50 (- 1) (- 1) (- 1) =
     Inr \<lparr>alpha = - 1, beta = - 1, gamma = - 1, network_size = 50\<rparr> \<and>
   NetworkSimulationExtension_init 50 2 (- 1) (- 1) (- 1) None 0 =
     Inr \<lparr>alpha = - 1, beta = - 1, gamma = - 1, n_size = 50, m_nodes = 2, delta = None,
          n_topics = 0\<rparr>"
  by (simp add: SocialDynamicsSimulation_init_def NetworkSimulationExtension_init_def)

text \<open>
  Claim C9, amended.  The constructors do not validate: for all arguments they return the
  object holding the arguments as given.
\<close>

theorem init_never_fails:
  "SocialDynamicsSimulation_init n a b c =
     Inr \<lparr>alpha = a, beta = b, gamma = c, network_size = n\<rparr> \<and>
   NetworkSimulationExtension_init n m a b c d t =
     Inr \<lparr>alpha = a, beta = b, gamma = c, n_size = n, m_nodes = m, delta = d, n_topics = t\<rparr>"
  by (simp add: SocialDynamicsSimulation_init_def NetworkSimulationExtension_init_def)

lemma nse_write_weight_present:
  "adj (graph (nse_write s e w)) (fst e) (snd e) \<noteq> None \<and>
   adj (graph (nse_write s e w)) (snd e) (fst e) \<noteq> None"
  by (simp add: nse_write_def Let_def clip_weight_def set_weight_def put_weight_at
      update_opinions_frame del: not_None_eq)

text \<open>
  Claim C5.  After an interaction step the chosen edge is present (in either direction)
  exactly when the weight written for it is not below \<open>0.05\<close>; a written weight equal to
  \<open>0.05\<close> keeps the edge.  Both classes.
\<close>

theorem edge_removed_iff_below_threshold:
  "(\<not> uniform r < 0.01 \<and> edges (graph s) \<noteq> [] \<and>
      e = random_choice (edges (graph s)) (choice r) \<longrightarrow>
      (\<exists>s'. SocialDynamicsSimulation_update r s = Some (Inr s') \<and>
         (has_edge (graph s') e \<longleftrightarrow> \<not> sds_post_weight s e < 0.05) \<and>
         (has_edge (graph s') (snd e, fst e) \<longleftrightarrow> \<not> sds_post_weight s e < 0.05))) \<and>
   (uniform r' > 0.01 \<and> edges (graph t) \<noteq> [] \<and>
      e' = random_choice (edges (graph t)) (choice r') \<longrightarrow>
      (\<exists>t'. NetworkSimulationExtension_update r' t = Inr t' \<and>
         (has_edge (graph t') e' \<longleftrightarrow> \<not> nse_post_weight t e' < 0.05) \<and>
         (has_edge (graph t') (snd e', fst e') \<longleftrightarrow> \<not> nse_post_weight t e' < 0.05)))"
proof (intro conjI impI)
  assume h: "\<not> uniform r < 0.01 \<and> edges (graph s) \<noteq> [] \<and>
      e = random_choice (edges (graph s)) (choice r)"
  let ?s3 = "sds_write s e (the (adj (graph s) (fst e) (snd e)))"
  have "has_edge (graph s) e" using chosen_edge [of "graph s" e "choice r"] h by simp
  then have i: "sds_interact s e = Inr (?s3\<lparr>graph := prune (graph ?s3) e\<rparr>)"
    by (rule sds_interact_present)
  have p: "adj (graph ?s3) (fst e) (snd e) \<noteq> None" "adj (graph ?s3) (snd e) (fst e) \<noteq> None"
    by (simp_all add: sds_write_weight del: not_None_eq)
  show "\<exists>s'. SocialDynamicsSimulation_update r s = Some (Inr s') \<and>
         (has_edge (graph s') e \<longleftrightarrow> \<not> sds_post_weight s e < 0.05) \<and>
         (has_edge (graph s') (snd e, fst e) \<longleftrightarrow> \<not> sds_post_weight s e < 0.05)"
    using sds_update_interaction [of r s] h i prune_has_edge [OF p]
    by (simp add: sds_post_weight_def)
next
  assume h: "uniform r' > 0.01 \<and> edges (graph t) \<noteq> [] \<and>
      e' = random_choice (edges (graph t)) (choice r')"
  let ?s4 = "nse_write t e' (the (adj (graph t) (fst e') (snd e')))"
  have "has_edge (graph t) e'" using chosen_edge [of "graph t" e' "choice r'"] h by simp
  then have i: "nse_interact t e' = Inr (?s4\<lparr>graph := prune (graph ?s4) e'\<rparr>)"
    by (rule nse_interact_present)
  have p: "adj (graph ?s4) (fst e') (snd e') \<noteq> None" "adj (graph ?s4) (snd e') (fst e') \<noteq> None"
    using nse_write_weight_present [of t e'] by simp_all
  show "\<exists>t'. NetworkSimulationExtension_update r' t = Inr t' \<and>
         (has_edge (graph t') e' \<longleftrightarrow> \<not> nse_post_weight t e' < 0.05) \<and>
         (has_edge (graph t') (snd e', fst e') \<longleftrightarrow> \<not> nse_post_weight t e' < 0.05)"
    using nse_update_interaction [of r' t] h i prune_has_edge [OF p]
    by (simp add: nse_post_weight_def)
qed

section \<open>Claims about the new-edge branch\<close>

lemma sds_new_edge_sound:
  assumes "sds_new_edge g draws k = Some e"
  shows "\<not> has_edge g e \<and> (\<exists>i. e = random_sample (nodes g) (draws (k + i)))"
proof (rule sds_new_edge.raw_induct
    [where P = "\<lambda>g draws k e. \<not> has_edge g e \<and> (\<exists>i. e = random_sample (nodes g) (draws (k + i)))",
      OF _ assms])
  fix f :: "real graph \<Rightarrow> (nat \<Rightarrow> nat \<times> nat) \<Rightarrow> nat \<Rightarrow> edge option"
    and g :: "real graph" and draws k e
  assume IH: "\<And>g draws k e. f g draws k = Some e \<Longrightarrow>
      \<not> has_edge g e \<and> (\<exists>i. e = random_sample (nodes g) (draws (k + i)))"
    and body: "(let new_edge = random_sample (nodes g) (draws k)
                in if \<not> has_edge g new_edge then Some new_edge else f g draws (Suc k)) = Some e"
  show "\<not> has_edge g e \<and> (\<exists>i. e = random_sample (nodes g) (draws (k + i)))"
  proof (cases "has_edge g (random_sample (nodes g) (draws k))")
    case True
    then have "f g draws (Suc k) = Some e" using body by (simp add: Let_def)
    then have "\<not> has_edge g e \<and> (\<exists>i. e = random_sample (nodes g) (draws (Suc k + i)))"
      by (rule IH)
    then obtain i where "\<not> has_edge g e" "e = random_sample (nodes g) (draws (k + Suc i))"
      by auto
    then show ?thesis by blast
  next
    case False
    then have e: "e = random_sample (nodes g) (draws (k + 0))" using body by (simp add: Let_def)
    then have "\<not> has_edge g e" using False by simp
    then show ?thesis using e by (intro conjI exI [of _ 0])
  qed
qed

lemma sds_new_edge_terminates:
  "\<not> has_edge g (random_sample (nodes g) (draws (k + n))) \<Longrightarrow>
   \<exists>e. sds_new_edge g draws k = Some e"
proof (induction n arbitrary: k)
  case 0
  then show ?case by (subst sds_new_edge.simps) (simp add: Let_def)
next
  case (Suc n)
  then have "\<exists>e. sds_new_edge g draws (Suc k) = Some e" using Suc.IH [of "Suc k"] by simp
  then show ?case by (subst sds_new_edge.simps) (simp add: Let_def)
qed

lemma sampled_pair_fresh:
  assumes sg: "simple_graph g" and len: "2 \<le> length (nodes g)"
    and e: "e = random_sample (nodes g) d" and ne: "\<not> has_edge g e"
  shows "\<exists>u v. e = (u, v) \<and> u \<noteq> v \<and> u \<in> set (nodes g) \<and> v \<in> set (nodes g) \<and>
           \<not> has_edge g (u, v) \<and> \<not> has_edge g (v, u)"
proof -
  have d: "fst e \<in> set (nodes g) \<and> snd e \<in> set (nodes g) \<and> fst e \<noteq> snd e"
    using random_sample_distinct [of "nodes g" d] sg len by (simp add: simple_graph_def e)
  have "adj g (snd e) (fst e) = adj g (fst e) (snd e)"
    using sg d by (simp add: simple_graph_def)
  then have "\<not> has_edge g (snd e, fst e)" using ne by (simp add: has_edge_def)
  then show ?thesis using d ne by (intro exI [of _ "fst e"] exI [of _ "snd e"]) simp
qed

lemma sampled_pair_connected:
  assumes "simple_graph g" "2 \<le> length (nodes g)" "complete_graph g"
  shows "has_edge g (random_sample (nodes g) d)"
  using random_sample_distinct [of "nodes g" d] assms
  by (simp add: simple_graph_def complete_graph_def has_edge_def del: not_None_eq)

text \<open>
  Claim C8.  In both classes a call of \<^verbatim>\<open>update\<close> that takes the new-edge branch and returns
  adds at most one edge, and an added edge joins two different nodes that were not joined
  before, in either direction.  In the extension the loop draws at most 50 samples, and
  when every sample is an existing edge (as on a complete graph) the graph is unchanged.
\<close>

theorem new_edge_branch_safe:
  "(uniform r < 0.01 \<and> simple_graph (graph s) \<and>
      SocialDynamicsSimulation_update r s = Some (Inr s') \<longrightarrow>
      (\<exists>u v. u \<noteq> v \<and> u \<in> set (nodes (graph s)) \<and> v \<in> set (nodes (graph s)) \<and>
         \<not> has_edge (graph s) (u, v) \<and> \<not> has_edge (graph s) (v, u) \<and>
         graph s' = add_edge (graph s) (u, v) 0.5)) \<and>
   (\<not> uniform r' > 0.01 \<and> simple_graph (graph t) \<and>
      NetworkSimulationExtension_update r' t = Inr t' \<longrightarrow>
      (graph t' = graph t \<or>
       (\<exists>u v. u \<noteq> v \<and> u \<in> set (nodes (graph t)) \<and> v \<in> set (nodes (graph t)) \<and>
          \<not> has_edge (graph t) (u, v) \<and> \<not> has_edge (graph t) (v, u) \<and>
          graph t' = add_edge (graph t) (u, v) (normal r'))) \<and>
      snd (nse_new_edge 50 0 r' (graph t)) \<le> 50 \<and>
      ((\<forall>i<50. has_edge (graph t) (random_sample (nodes (graph t)) (sample r' i))) \<longrightarrow>
         graph t' = graph t) \<and>
      (complete_graph (graph t) \<longrightarrow> graph t' = graph t))"
proof (intro conjI impI)
  assume h: "uniform r < 0.01 \<and> simple_graph (graph s) \<and>
      SocialDynamicsSimulation_update r s = Some (Inr s')"
  then have len: "2 \<le> length (nodes (graph s))"
    by (auto simp: SocialDynamicsSimulation_update_def split: if_splits)
  then obtain e where e: "sds_new_edge (graph s) (sample r) 0 = Some e"
    and s': "s' = s\<lparr>graph := add_edge (graph s) e 0.5, step := step s + 1\<rparr>"
    using h by (auto simp: SocialDynamicsSimulation_update_def split: if_splits option.splits)
  obtain i where "\<not> has_edge (graph s) e" "e = random_sample (nodes (graph s)) (sample r (0 + i))"
    using sds_new_edge_sound [OF e] by auto
  then obtain u v where "e = (u, v)" "u \<noteq> v" "u \<in> set (nodes (graph s))" "v \<in> set (nodes (graph s))"
     "\<not> has_edge (graph s) (u, v)" "\<not> has_edge (graph s) (v, u)"
    using sampled_pair_fresh [of "graph s" e "sample r (0 + i)"] h len by auto
  then show "\<exists>u v. u \<noteq> v \<and> u \<in> set (nodes (graph s)) \<and> v \<in> set (nodes (graph s)) \<and>
         \<not> has_edge (graph s) (u, v) \<and> \<not> has_edge (graph s) (v, u) \<and>
         graph s' = add_edge (graph s) (u, v) 0.5"
    using s' by auto
next
  assume h: "\<not> uniform r' > 0.01 \<and> simple_graph (graph t) \<and>
      NetworkSimulationExtension_update r' t = Inr t'"
  then have len: "2 \<le> length (nodes (graph t))"
    by (auto simp: NetworkSimulationExtension_update_def split: if_splits)
  have t': "graph t' = fst (nse_new_edge 50 0 r' (graph t))"
    using h by (auto simp: NetworkSimulationExtension_update_def split: if_splits)
  show "graph t' = graph t \<or>
       (\<exists>u v. u \<noteq> v \<and> u \<in> set (nodes (graph t)) \<and> v \<in> set (nodes (graph t)) \<and>
          \<not> has_edge (graph t) (u, v) \<and> \<not> has_edge (graph t) (v, u) \<and>
          graph t' = add_edge (graph t) (u, v) (normal r'))"
    using nse_new_edge_result [of 50 0 r' "graph t"]
  proof
    assume "fst (nse_new_edge 50 0 r' (graph t)) = graph t"
    then show ?thesis by (simp add: t')
  next
    assume "\<exists>i<50. \<not> has_edge (graph t) (random_sample (nodes (graph t)) (sample r' (0 + i))) \<and>
       fst (nse_new_edge 50 0 r' (graph t)) =
         add_edge (graph t) (random_sample (nodes (graph t)) (sample r' (0 + i))) (normal r')"
    then obtain i where ne: "\<not> has_edge (graph t) (random_sample (nodes (graph t)) (sample r' (0 + i)))"
      and g: "graph t' = add_edge (graph t) (random_sample (nodes (graph t)) (sample r' (0 + i))) (normal r')"
      by (auto simp: t')
    obtain u v where "random_sample (nodes (graph t)) (sample r' (0 + i)) = (u, v)" "u \<noteq> v"
      "u \<in> set (nodes (graph t))" "v \<in> set (nodes (graph t))"
      "\<not> has_edge (graph t) (u, v)" "\<not> has_edge (graph t) (v, u)"
      using sampled_pair_fresh [OF _ len refl ne] h by auto
    then show ?thesis using g by auto
  qed
  show "snd (nse_new_edge 50 0 r' (graph t)) \<le> 50"
    using nse_new_edge_count [of 50 0 r' "graph t"] by simp
  have ex: "graph t' = graph t"
    if "\<forall>i<50. has_edge (graph t) (random_sample (nodes (graph t)) (sample r' i))"
    using nse_new_edge_exhausted [of 50 "graph t" r' 0] that by (simp add: t')
  then show "graph t' = graph t"
    if "\<forall>i<50. has_edge (graph t) (random_sample (nodes (graph t)) (sample r' i))"
    using that .
  show "graph t' = graph t" if "complete_graph (graph t)"
    using ex sampled_pair_connected [of "graph t"] h len that by simp
qed


lemma sample_first_two: "random_sample [0, Suc 0] (0, 0) = (0, Suc 0)"
  by (simp add: random_sample_def)

lemma simple_fixtures:
  "simple_graph (graph (sds_apart p))" "simple_graph (graph (nse_pair q x y w))"
  by (simp_all add: simple_graph_def sds_apart_def nse_pair_def put_weight_def)

lemma sds_apart_new_edge:
  "SocialDynamicsSimulation_update (draw_new_edge w) (sds_apart p) =
     Some (Inr ((sds_apart p)\<lparr>graph := add_edge (graph (sds_apart p)) (0, 1) 0.5,
                              step := step (sds_apart p) + 1\<rparr>))"
proof -
  have n: "nodes (graph (sds_apart p)) = [0, 1]" by (simp add: sds_apart_def)
  have "\<not> has_edge (graph (sds_apart p)) (0, 1)" by (simp add: has_edge_def sds_apart_def)
  then have "sds_new_edge (graph (sds_apart p)) (sample (draw_new_edge w)) 0 = Some (0, 1)"
    by (subst sds_new_edge.simps) (simp add: n draw_new_edge_def sample_first_two)
  then show ?thesis
    by (simp add: SocialDynamicsSimulation_update_def n draw_new_edge_def)
qed

lemma nse_pair_new_edge:
  "NetworkSimulationExtension_update (draw_new_edge w) (nse_pair q x y v) =
     Inr ((nse_pair q x y v)\<lparr>graph := fst (nse_new_edge 50 0 (draw_new_edge w) (graph (nse_pair q x y v))),
                              step := step (nse_pair q x y v) + 1\<rparr>)"
proof -
  have n: "nodes (graph (nse_pair q x y v)) = [0, 1]" by (simp add: nse_pair_def)
  show ?thesis by (simp add: NetworkSimulationExtension_update_def n draw_new_edge_def)
qed

text \<open>The scalar class joins two separate nodes; the extension leaves a complete graph
  on two nodes unchanged.\<close>

theorem new_edge_branch_safe_witness:
  "uniform (draw_new_edge (1/2)) < 0.01 \<and> simple_graph (graph (sds_apart sds_defaults)) \<and>
   SocialDynamicsSimulation_update (draw_new_edge (1/2)) (sds_apart sds_defaults) =
     Some (Inr ((sds_apart sds_defaults)
        \<lparr>graph := add_edge (graph (sds_apart sds_defaults)) (0, 1) 0.5,
          step := step (sds_apart sds_defaults) + 1\<rparr>)) \<and>
   \<not> uniform (draw_new_edge (1/2)) > 0.01 \<and>
   simple_graph (graph (nse_pair nse_defaults [0] [1] (1/2))) \<and>
   complete_graph (graph (nse_pair nse_defaults [0] [1] (1/2))) \<and>
   NetworkSimulationExtension_update (draw_new_edge (1/2)) (nse_pair nse_defaults [0] [1] (1/2)) =
     Inr ((nse_pair nse_defaults [0] [1] (1/2))
       \<lparr>graph := fst (nse_new_edge 50 0 (draw_new_edge (1/2)) (graph (nse_pair nse_defaults [0] [1] (1/2)))),
         step := step (nse_pair nse_defaults [0] [1] (1/2)) + 1\<rparr>) \<and>
   fst (nse_new_edge 50 0 (draw_new_edge (1/2)) (graph (nse_pair nse_defaults [0] [1] (1/2)))) =
     graph (nse_pair nse_defaults [0] [1] (1/2))"
proof -
  let ?s = "sds_apart sds_defaults" and ?t = "nse_pair nse_defaults [0] [1] (1/2)"
  let ?r = "draw_new_edge (1/2)"
  let ?s' = "?s\<lparr>graph := add_edge (graph ?s) (0, 1) 0.5, step := step ?s + 1\<rparr>"
  let ?t' = "?t\<lparr>graph := fst (nse_new_edge 50 0 ?r (graph ?t)), step := step ?t + 1\<rparr>"
  have u: "uniform ?r < 0.01" "\<not> uniform ?r > 0.01" by (simp_all add: draw_new_edge_def)
  have c: "complete_graph (graph ?t)"
    by (simp add: complete_graph_def nse_pair_def put_weight_def del: not_None_eq)
  have "graph ?t' = graph ?t"
    using new_edge_branch_safe [of ?r ?s ?s' ?r ?t ?t'] u c simple_fixtures sds_apart_new_edge nse_pair_new_edge
    by blast
  then show ?thesis
    using u c simple_fixtures sds_apart_new_edge [of "1/2" sds_defaults]
      nse_pair_new_edge [of "1/2" nse_defaults "[0]" "[1]" "1/2"] by simp
qed

text \<open>The removal test at the scalar scenario and at a pair of the extension.\<close>

theorem edge_removed_iff_below_threshold_witness:
  "\<not> uniform draw_interact < 0.01 \<and> edges (graph (sds_pair sds_defaults (3/10) 0 (1/4))) \<noteq> [] \<and>
   (0, 1) = random_choice (edges (graph (sds_pair sds_defaults (3/10) 0 (1/4)))) (choice draw_interact) \<and>
   (\<exists>s'. SocialDynamicsSimulation_update draw_interact (sds_pair sds_defaults (3/10) 0 (1/4)) = Some (Inr s') \<and>
      (has_edge (graph s') (0, 1) \<longleftrightarrow> \<not> sds_post_weight (sds_pair sds_defaults (3/10) 0 (1/4)) (0, 1) < 0.05)) \<and>
   uniform draw_interact > 0.01 \<and> edges (graph (nse_pair nse_defaults [0] [1] (1/2))) \<noteq> [] \<and>
   (0, 1) = random_choice (edges (graph (nse_pair nse_defaults [0] [1] (1/2)))) (choice draw_interact) \<and>
   (\<exists>t'. NetworkSimulationExtension_update draw_interact (nse_pair nse_defaults [0] [1] (1/2)) = Inr t' \<and>
      (has_edge (graph t') (0, 1) \<longleftrightarrow> \<not> nse_post_weight (nse_pair nse_defaults [0] [1] (1/2)) (0, 1) < 0.05))"
proof -
  let ?s = "sds_pair sds_defaults (3/10) 0 (1/4)" and ?t = "nse_pair nse_defaults [0] [1] (1/2)"
  have u: "\<not> uniform draw_interact < 0.01" "uniform draw_interact > 0.01"
    by (simp_all add: draw_interact_def)
  have ne: "edges (graph ?s) \<noteq> []" "edges (graph ?t) \<noteq> []" by (simp_all add: edges_pair)
  have c: "(0, 1) = random_choice (edges (graph ?s)) (choice draw_interact)"
    "(0, 1) = random_choice (edges (graph ?t)) (choice draw_interact)"
    by (simp_all add: edges_pair random_choice_def)
  show ?thesis
    using edge_removed_iff_below_threshold [of draw_interact ?s "(0, 1)" draw_interact ?t "(0, 1)"]
      u ne c by blast
qed

section \<open>Ranges along a run of the extension\<close>
















lemma nse_write_nodes: "nodes (graph (nse_write s e w)) = nodes (graph s)"
  by (simp add: nse_write_def Let_def clip_weight_def clip_opinions_def set_attr_def
      set_weight_def update_opinions_frame)

lemma nse_update_nodes:
  assumes "NetworkSimulationExtension_update r s = Inr s'"
  shows "nodes (graph s') = nodes (graph s)"
proof (cases "uniform r > 0.01")
  case True
  then have ne: "edges (graph s) \<noteq> []"
    using assms by (auto simp: NetworkSimulationExtension_update_def)
  define e where "e = random_choice (edges (graph s)) (choice r)"
  define w where "w = the (adj (graph s) (fst e) (snd e))"
  have "has_edge (graph s) e" using chosen_edge [OF ne, of e "choice r"] by (simp add: e_def)
  then have "nse_interact s e = Inr ((nse_write s e w)\<lparr>graph := prune (graph (nse_write s e w)) e\<rparr>)"
    unfolding w_def by (rule nse_interact_present)
  then have "s' = (nse_write s e w)\<lparr>graph := prune (graph (nse_write s e w)) e,
      step := step (nse_write s e w) + 1\<rparr>"
    using assms nse_update_interaction [OF True ne] by (simp add: e_def)
  then show ?thesis by (simp add: prune_def remove_edge_def nse_write_nodes)
next
  case False
  then have "s' = s\<lparr>graph := fst (nse_new_edge 50 0 r (graph s)), step := step s + 1\<rparr>"
    using assms by (auto simp: NetworkSimulationExtension_update_def split: if_splits)
  then show ?thesis using nse_new_edge_frame [of 50 0 r "graph s"] by simp
qed

lemma nse_new_edge_branch_returns:
  "\<not> uniform r > 0.01 \<Longrightarrow> 2 \<le> length (nodes (graph s)) \<Longrightarrow>
   \<exists>s'. NetworkSimulationExtension_update r s = Inr s'"
  by (simp add: NetworkSimulationExtension_update_def)


section \<open>The weight update of the extension\<close>

lemma update_opinions_arrays:
  assumes "attr (graph s) (fst e) \<noteq> attr (graph s) (snd e)"
  shows "arrays (update_opinions s e w) (attr (graph s) (fst e)) =
     np_add (arrays s (attr (graph s) (fst e)))
       (scaled_delta (delta (self s))
          (map ((*) (alpha (self s) * w))
             (np_sub (arrays s (attr (graph s) (snd e))) (arrays s (attr (graph s) (fst e)))))
          (arrays s (attr (graph s) (fst e))))"
    and "arrays (update_opinions s e w) (attr (graph s) (snd e)) =
     np_sub (arrays s (attr (graph s) (snd e)))
       (scaled_delta (delta (self s))
          (map ((*) (alpha (self s) * w))
             (np_sub (arrays s (attr (graph s) (snd e))) (arrays s (attr (graph s) (fst e)))))
          (arrays s (attr (graph s) (snd e))))"
  using assms by (simp_all add: update_opinions_def iadd_def isub_def Let_def)

lemma pair_update_opinions:
  "arrays (update_opinions (nse_pair p [a] [b] w) (0, 1) w) 0 =
     np_add [a] (scaled_delta (delta p) [alpha p * w * (b - a)] [a])"
  "arrays (update_opinions (nse_pair p [a] [b] w) (0, 1) w) 1 =
     np_sub [b] (scaled_delta (delta p) [alpha p * w * (b - a)] [b])"
  using update_opinions_arrays [of "nse_pair p [a] [b] w" "(0, 1)" w]
  by (simp_all add: nse_pair_def np_sub_def)

lemma nse_post_weight_eq:
  "nse_post_weight s e =
     (let w = the (adj (graph s) (fst e) (snd e));
          s2 = update_opinions s e w;
          w1 = w + delta_w (self s) w (arrays s2 (attr (graph s) (fst e)))
                                      (arrays s2 (attr (graph s) (snd e)))
      in if truthy (delta (self s)) then clip w1 0 1 else w1)"
  by (simp add: nse_post_weight_def nse_write_def Let_def update_opinions_frame set_weight_def
      put_weight_at clip_weight_def clip_opinions_def set_attr_def)

lemma nse_pair_weight_after:
  "nse_weight_after (NetworkSimulationExtension_update draw_interact (nse_pair p x y w)) (0, 1) =
     (if nse_post_weight (nse_pair p x y w) (0, 1) < 0.05 then None
      else Some (nse_post_weight (nse_pair p x y w) (0, 1)))"
proof -
  let ?s = "nse_pair p x y w" and ?e = "(0, 1) :: edge"
  have w: "the (adj (graph ?s) (fst ?e) (snd ?e)) = w"
    by (simp add: nse_pair_def put_weight_def)
  have "adj (graph (nse_write ?s (0, 1) w)) (fst ?e) (snd ?e) \<noteq> None"
    by (rule nse_write_weight_present [of ?s "(0, 1)" w, THEN conjunct1])
  then obtain v where v: "adj (graph (nse_write ?s (0, 1) w)) (fst ?e) (snd ?e) = Some v"
    by blast
  then have pw: "nse_post_weight ?s (0, 1) = v" using w by (simp add: nse_post_weight_def)
  show ?thesis
    unfolding nse_pair_step pw using v
    by (simp add: nse_weight_after_def prune_def remove_edge_def)
qed

lemma nse_pair_opinions_after:
  assumes "\<not> truthy (delta p)"
  shows "nse_opinions_after (NetworkSimulationExtension_update draw_interact (nse_pair p x y w)) 0
           = Some (arrays (update_opinions (nse_pair p x y w) (0, 1) w) 0)"
    and "nse_opinions_after (NetworkSimulationExtension_update draw_interact (nse_pair p x y w)) 1
           = Some (arrays (update_opinions (nse_pair p x y w) (0, 1) w) 1)"
proof -
  let ?s = "nse_pair p x y w" and ?e = "(0, 1) :: edge"
  have p: "self ?s = p" and a: "attr (graph ?s) = (\<lambda>n. n)" by (simp_all add: nse_pair_def)
  have wr: "nse_write ?s (0, 1) w =
      (update_opinions ?s (0, 1) w)\<lparr>graph := set_weight (graph ?s) (0, 1)
         (the (adj (graph ?s) (fst ?e) (snd ?e)) +
          delta_w p w (arrays (update_opinions ?s (0, 1) w) (attr (graph ?s) (fst ?e)))
                      (arrays (update_opinions ?s (0, 1) w) (attr (graph ?s) (snd ?e))))\<rparr>"
    using assms by (simp add: nse_write_def Let_def update_opinions_frame p)
  show "nse_opinions_after (NetworkSimulationExtension_update draw_interact ?s) 0
           = Some (arrays (update_opinions ?s (0, 1) w) 0)"
    unfolding nse_pair_step wr
    by (simp add: nse_opinions_after_def prune_attr set_weight_def a)
  show "nse_opinions_after (NetworkSimulationExtension_update draw_interact ?s) 1
           = Some (arrays (update_opinions ?s (0, 1) w) 1)"
    unfolding nse_pair_step wr
    by (simp add: nse_opinions_after_def prune_attr set_weight_def a)
qed

lemma nse_pair_post_weight:
  "nse_post_weight (nse_pair p [a] [b] w) (0, 1) =
     (let oa = np_add [a] (scaled_delta (delta p) [alpha p * w * (b - a)] [a]);
          ob = np_sub [b] (scaled_delta (delta p) [alpha p * w * (b - a)] [b]);
          w1 = w + delta_w p w oa ob
      in if truthy (delta p) then clip w1 0 1 else w1)"
proof -
  let ?s = "nse_pair p [a] [b] w" and ?e = "(0, 1) :: edge"
  have f: "the (adj (graph ?s) (fst ?e) (snd ?e)) = w" "self ?s = p"
    "attr (graph ?s) (fst ?e) = 0" "attr (graph ?s) (snd ?e) = 1"
    by (simp_all add: nse_pair_def put_weight_def)
  show ?thesis
    unfolding nse_post_weight_eq [of ?s "(0, 1)"] f pair_update_opinions Let_def ..
qed

text \<open>
  Claim C1 at a failing input.  The extension with its default coefficients, one topic, no
  flexibility; opinions \<open>[0]\<close> and \<open>[1]\<close>, weight \<open>0.5\<close>.  The call of \<^verbatim>\<open>update\<close> moves the
  opinions to \<open>[0.015]\<close> and \<open>[0.985]\<close> and then changes the weight by
  \<open>beta * w * (1 - w) * (1 - gamma * 0.97) = -0.216\<close>, computed from the opinions after their
  update; from the opinions before the update the change would be \<open>-0.225\<close>.
\<close>

theorem weight_delta_reads_updated_opinions:
  "nse_opinions_after
     (NetworkSimulationExtension_update draw_interact (nse_pair nse_defaults [0] [1] (1/2))) 0
     = Some [15/1000] \<and>
   nse_opinions_after
     (NetworkSimulationExtension_update draw_interact (nse_pair nse_defaults [0] [1] (1/2))) 1
     = Some [985/1000] \<and>
   nse_weight_after
     (NetworkSimulationExtension_update draw_interact (nse_pair nse_defaults [0] [1] (1/2))) (0, 1)
     = Some (1/2 + delta_w nse_defaults (1/2) [15/1000] [985/1000]) \<and>
   delta_w nse_defaults (1/2) [15/1000] [985/1000] = - 216/1000 \<and>
   delta_w nse_defaults (1/2) [0] [1] = - 225/1000"
proof -
  have t: "\<not> truthy (delta nse_defaults)" by (simp add: truthy_def nse_defaults_def)
  have dw: "delta_w nse_defaults (1/2) [15/1000] [985/1000] = - 216/1000"
    "delta_w nse_defaults (1/2) [0] [1] = - 225/1000"
    by (simp_all add: delta_w_def nse_defaults_def np_mean_def np_absolute_def np_sub_def)
  have o: "np_add [0] (scaled_delta (delta nse_defaults) [alpha nse_defaults * (1/2) * (1 - 0)] [0])
             = [15/1000]"
    "np_sub [1] (scaled_delta (delta nse_defaults) [alpha nse_defaults * (1/2) * (1 - 0)] [1])
             = [985/1000]"
    using t by (simp_all add: scaled_delta_def np_add_def np_sub_def nse_defaults_def)
  have pw: "nse_post_weight (nse_pair nse_defaults [0] [1] (1/2)) (0, 1) = 1/2 + - 216/1000"
    unfolding nse_pair_post_weight Let_def o dw using t by simp
  show ?thesis
    unfolding nse_pair_opinions_after [OF t] nse_pair_weight_after pair_update_opinions pw o dw
    by simp
qed

text \<open>
  Claim C6 at a failing input.  The extension with \<open>gamma = 1\<close>, \<open>alpha = 0.5\<close>,
  \<open>beta = 0.3\<close>, \<open>delta = 20\<close>; opinions \<open>[0.3]\<close> and \<open>[0.7]\<close>, weight \<open>0.9\<close>, all in
  \<open>[0,1]\<close>.  The call of \<^verbatim>\<open>update\<close> leaves the weight \<open>0.87948\<close>, below the weight before.
\<close>

theorem weight_decreases_with_gamma_one:
  "gamma nse_flexible \<le> 1 \<and> in_unit (3/10) \<and> in_unit (7/10) \<and> in_unit (9/10) \<and>
   nse_weight_after
     (NetworkSimulationExtension_update draw_interact (nse_pair nse_flexible [3/10] [7/10] (9/10)))
     (0, 1) = Some (87948/100000) \<and>
   (87948/100000 :: real) < 9/10"
proof -
  have t: "truthy (delta nse_flexible)" by (simp add: truthy_def nse_flexible_def)
  have o: "np_add [3/10] (scaled_delta (delta nse_flexible)
              [alpha nse_flexible * (9/10) * (7/10 - 3/10)] [3/10]) = [138/100]"
    "np_sub [7/10] (scaled_delta (delta nse_flexible)
              [alpha nse_flexible * (9/10) * (7/10 - 3/10)] [7/10]) = [- 38/100]"
    using t by (simp_all add: scaled_delta_def np_add_def np_sub_def np_mul_def np_maximum_def
        np_minimum_def np_absolute_def nse_flexible_def)
  have dw: "delta_w nse_flexible (9/10) [138/100] [- 38/100] = - 2052/100000"
    by (simp add: delta_w_def nse_flexible_def np_mean_def np_absolute_def np_sub_def)
  have pw: "nse_post_weight (nse_pair nse_flexible [3/10] [7/10] (9/10)) (0, 1) = 87948/100000"
    unfolding nse_pair_post_weight Let_def o dw using t by (simp add: clip_def)
  have "nse_weight_after
     (NetworkSimulationExtension_update draw_interact (nse_pair nse_flexible [3/10] [7/10] (9/10)))
     (0, 1) = Some (87948/100000)"
    unfolding nse_pair_weight_after pw by simp
  then show ?thesis by (simp add: nse_flexible_def in_unit_def)
qed

lemma sds_pair_after:
  "sds_opinion_after (SocialDynamicsSimulation_update draw_interact (sds_pair p a b w)) 0
     = Some (a + alpha p * w * (b - a))"
  "sds_opinion_after (SocialDynamicsSimulation_update draw_interact (sds_pair p a b w)) 1
     = Some (b + alpha p * w * (a - b))"
  "sds_weight_after (SocialDynamicsSimulation_update draw_interact (sds_pair p a b w)) (0, 1)
     = (if sds_new_weight p w [a, b] < 0.05 then None else Some (sds_new_weight p w [a, b]))"
  unfolding sds_pair_step
  by (simp_all add: sds_opinion_after_def sds_weight_after_def sds_write_def prune_def
      remove_edge_def set_weight_def set_attr_def put_weight_def sds_pair_def Let_def)

text \<open>
  Claim C10 at a failing input.  From opinions \<open>0\<close> and \<open>1\<close> and weight \<open>0.5\<close>, with the same
  coefficients, the scalar class and the extension with one topic and no flexibility reach
  the same opinions, and different weights: \<open>0.275\<close> and \<open>0.284\<close>.
\<close>

theorem one_topic_extension_differs_from_scalar:
  "sds_opinion_after
     (SocialDynamicsSimulation_update draw_interact (sds_pair sds_defaults 0 1 (1/2))) 0
     = Some (15/1000) \<and>
   nse_opinions_after
     (NetworkSimulationExtension_update draw_interact (nse_pair nse_defaults [0] [1] (1/2))) 0
     = Some [15/1000] \<and>
   sds_opinion_after
     (SocialDynamicsSimulation_update draw_interact (sds_pair sds_defaults 0 1 (1/2))) 1
     = Some (985/1000) \<and>
   nse_opinions_after
     (NetworkSimulationExtension_update draw_interact (nse_pair nse_defaults [0] [1] (1/2))) 1
     = Some [985/1000] \<and>
   sds_weight_after
     (SocialDynamicsSimulation_update draw_interact (sds_pair sds_defaults 0 1 (1/2))) (0, 1)
     = Some (275/1000) \<and>
   nse_weight_after
     (NetworkSimulationExtension_update draw_interact (nse_pair nse_defaults [0] [1] (1/2))) (0, 1)
     = Some (284/1000)"
proof -
  have t: "\<not> truthy (delta nse_defaults)" by (simp add: truthy_def nse_defaults_def)
  have o: "np_add [0] (scaled_delta (delta nse_defaults) [alpha nse_defaults * (1/2) * (1 - 0)] [0])
             = [15/1000]"
    "np_sub [1] (scaled_delta (delta nse_defaults) [alpha nse_defaults * (1/2) * (1 - 0)] [1])
             = [985/1000]"
    using t by (simp_all add: scaled_delta_def np_add_def np_sub_def nse_defaults_def)
  have dw: "delta_w nse_defaults (1/2) [15/1000] [985/1000] = - 216/1000"
    by (simp add: delta_w_def nse_defaults_def np_mean_def np_absolute_def np_sub_def)
  have pw: "nse_post_weight (nse_pair nse_defaults [0] [1] (1/2)) (0, 1) = 284/1000"
    unfolding nse_pair_post_weight Let_def o dw using t by simp
  have s: "sds_new_weight sds_defaults (1/2) [0, 1] = 275/1000"
    "alpha sds_defaults = 3/100"
    by (simp_all add: sds_new_weight_def sds_defaults_def)
  show ?thesis
    unfolding nse_pair_opinions_after [OF t] nse_pair_weight_after pair_update_opinions pw o
      sds_pair_after s
    by simp
qed

text \<open>In the scalar class the weight written from opinions and a weight in \<open>[0,1]\<close> is
  not below the old weight when \<open>gamma\<close> is at most one and \<open>beta\<close> is not negative.\<close>

lemma sds_weight_nondecreasing:
  assumes "gamma p \<le> 1" "0 \<le> beta p" "in_unit oi" "in_unit oj" "in_unit w"
  shows "w \<le> sds_new_weight p w [oi, oj]"
proof -
  have d: "\<bar>oi - oj\<bar> \<le> 1" using assms(3,4) by (simp add: in_unit_def abs_le_iff)
  have "gamma p * \<bar>oi - oj\<bar> \<le> 1"
  proof (cases "0 \<le> gamma p")
    case True
    then have "gamma p * \<bar>oi - oj\<bar> \<le> 1 * 1"
      using d assms(1) by (intro mult_mono) simp_all
    then show ?thesis by simp
  next
    case False
    then have "gamma p * \<bar>oi - oj\<bar> \<le> 0" by (simp add: mult_le_0_iff)
    then show ?thesis by simp
  qed
  then have 1: "0 \<le> 1 - gamma p * \<bar>oi - oj\<bar>" by simp
  have 2: "0 \<le> beta p * w * (1 - w)" using assms(2,5) by (simp add: in_unit_def)
  have "0 \<le> beta p * w * (1 - w) * (1 - gamma p * \<bar>oi - oj\<bar>)"
    by (rule mult_nonneg_nonneg [OF 2 1])
  then show ?thesis by (simp add: sds_new_weight_def)
qed

section \<open>The ranges of the extension at two inputs\<close>





section \<open>The opinion sum in double arithmetic\<close>

lemma round_even_error: "\<bar>of_int (round_even x) - x\<bar> \<le> 1/2"
proof -
  have "of_int \<lfloor>x\<rfloor> \<le> x" "x < of_int \<lfloor>x\<rfloor> + 1" by linarith+
  then show ?thesis by (auto simp: round_even_def Let_def)
qed

lemma double_zero: "double 0 = 0"
  by (simp add: double_def)

lemma double_minus: "double (- x) = - double x"
  by (simp add: double_def Let_def sgn_minus)

lemma double_error: "\<bar>double x - x\<bar> \<le> (\<bar>x\<bar> + 1) / 2 ^ 53"
proof (cases "x = 0")
  case True
  then show ?thesis by (simp add: double_zero)
next
  case False
  define y where "y = \<bar>x\<bar>"
  define e where "e = max \<lfloor>log 2 y\<rfloor> (- 1022)"
  define q :: real where "q = 2 powr of_int (e - 52)"
  define m where "m = round_even (y / q)"
  have y: "0 < y" using False by (simp add: y_def)
  have q: "0 < q" by (simp add: q_def)
  have d: "double x = sgn x * (q * of_int m)"
    by (simp add: double_def Let_def y_def e_def q_def m_def)
  have "x = sgn x * y" by (simp add: y_def sgn_mult_abs)
  then have "double x - x = sgn x * (q * of_int m - y)" by (simp add: d algebra_simps)
  then have "\<bar>double x - x\<bar> = \<bar>q * of_int m - y\<bar>"
    using False by (simp add: abs_mult abs_sgn_eq)
  also have "q * of_int m - y = q * (of_int m - y / q)" using q by (simp add: algebra_simps)
  also have "\<bar>q * (of_int m - y / q)\<bar> = q * \<bar>of_int m - y / q\<bar>" using q by (simp add: abs_mult)
  also have "\<dots> \<le> q * (1/2)"
    using q round_even_error [of "y / q"] by (intro mult_left_mono) (simp_all add: m_def)
  finally have 1: "\<bar>double x - x\<bar> \<le> q / 2" by simp
  have "q \<le> (y + 1) / 2 ^ 52"
  proof (cases "\<lfloor>log 2 y\<rfloor> \<le> - 1022")
    case True
    then have "e = - 1022" by (simp add: e_def)
    then have "real_of_int (e - 52) \<le> - 52" by simp
    then have "q \<le> 2 powr (- 52)" unfolding q_def by (rule powr_mono) simp
    also have "\<dots> = 1 / 2 ^ 52" by (simp add: powr_neg_numeral)
    also have "\<dots> \<le> (y + 1) / 2 ^ 52" using y by (simp add: divide_right_mono)
    finally show ?thesis .
  next
    case False
    then have "e = \<lfloor>log 2 y\<rfloor>" by (simp add: e_def)
    then have "q = 2 powr (of_int \<lfloor>log 2 y\<rfloor> - 52)" by (simp add: q_def)
    also have "\<dots> = 2 powr (of_int \<lfloor>log 2 y\<rfloor> + (- 52))" by simp
    also have "\<dots> = 2 powr of_int \<lfloor>log 2 y\<rfloor> * 2 powr (- 52)"
      by (simp only: powr_add)
    also have "(2::real) powr of_int \<lfloor>log 2 y\<rfloor> \<le> 2 powr log 2 y" by (intro powr_mono) simp_all
    also have "2 powr log 2 y = y" using y by simp
    finally have "q \<le> y * 2 powr (- 52)" by simp
    also have "\<dots> = y / 2 ^ 52" by (simp add: powr_neg_numeral)
    also have "\<dots> \<le> (y + 1) / 2 ^ 52" by (simp add: divide_right_mono)
    finally show ?thesis .
  qed
  then have "q / 2 \<le> (y + 1) / 2 ^ 53" by simp
  then show ?thesis using 1 by (simp add: y_def)
qed


lemma double_abs_le:
  assumes "\<bar>x\<bar> \<le> B"
  shows "\<bar>double x\<bar> \<le> B + (B + 1) / 2 ^ 53"
proof -
  have "\<bar>double x\<bar> \<le> \<bar>x\<bar> + \<bar>double x - x\<bar>" by simp
  also have "\<dots> \<le> \<bar>x\<bar> + (\<bar>x\<bar> + 1) / 2 ^ 53" using double_error [of x] by simp
  also have "\<dots> \<le> B + (B + 1) / 2 ^ 53"
    using assms by (intro add_mono divide_right_mono) simp_all
  finally show ?thesis .
qed

lemma round_even_near: "\<bar>x - of_int m\<bar> < 1/2 \<Longrightarrow> round_even x = m"
proof -
  assume a: "\<bar>x - of_int m\<bar> < 1/2"
  show ?thesis
  proof (cases "of_int m \<le> x")
    case True
    then have "\<lfloor>x\<rfloor> = m" using a by (intro floor_unique) simp_all
    then show ?thesis using a True by (simp add: round_even_def Let_def)
  next
    case False
    then have "\<lfloor>x\<rfloor> = m - 1" using a by (intro floor_unique) simp_all
    then show ?thesis using a False by (simp add: round_even_def Let_def)
  qed
qed

lemma round_even_tie: "\<bar>x - of_int m\<bar> = 1/2 \<Longrightarrow> even m \<Longrightarrow> round_even x = m"
proof -
  assume a: "\<bar>x - of_int m\<bar> = 1/2" and e: "even m"
  show ?thesis
  proof (cases "of_int m \<le> x")
    case True
    then have "\<lfloor>x\<rfloor> = m" using a by (intro floor_unique) simp_all
    then show ?thesis using a True e by (simp add: round_even_def Let_def)
  next
    case False
    then have "\<lfloor>x\<rfloor> = m - 1" using a by (intro floor_unique) simp_all
    then show ?thesis using a False e by (simp add: round_even_def Let_def)
  qed
qed

lemma double_eval:
  assumes "0 < x" and "2 powr of_int e \<le> x" and "x < 2 powr (of_int e + 1)"
    and "- 1022 \<le> e"
    and "\<bar>x / 2 powr of_int (e - 52) - of_int m\<bar> < 1/2 \<or>
         \<bar>x / 2 powr of_int (e - 52) - of_int m\<bar> = 1/2 \<and> even m"
  shows "double x = 2 powr of_int (e - 52) * of_int m"
proof -
  have "\<lfloor>log 2 x\<rfloor> = e" using assms(1-3) by (simp add: floor_log_eq_powr_iff)
  then have "max \<lfloor>log 2 \<bar>x\<bar>\<rfloor> (- 1022) = e" using assms(1,4) by simp
  moreover have "round_even (x / 2 powr of_int (e - 52)) = m"
    using assms(5) round_even_near round_even_tie by blast
  ultimately show ?thesis using assms(1) by (simp add: double_def Let_def)
qed

lemma double_tenth: "double (1/10) = 7205759403792794 / 2 ^ 56"
  using double_eval [of "1/10" "- 4" 7205759403792794] by (simp add: powr_neg_numeral)

lemma double_seven_tenths: "double (7/10) = 6305039478318694 / 2 ^ 53"
  using double_eval [of "7/10" "- 1" 6305039478318694] by (simp add: powr_neg_numeral)

lemma double_nine_tenths: "double (9/10) = 8106479329266893 / 2 ^ 53"
  using double_eval [of "9/10" "- 1" 8106479329266893] by (simp add: powr_neg_numeral)

lemma rate_times_weight:
  "dmul (double (1/10)) (double (7/10)) = 5044031582654955 / 2 ^ 56"
  unfolding dmul_def double_tenth double_seven_tenths
  using double_eval [of "7205759403792794 / 2 ^ 56 * (6305039478318694 / 2 ^ 53)" "- 4"
      5044031582654955]
  by (simp add: powr_neg_numeral)

lemma nine_tenths_again: "double (8106479329266893 / 2 ^ 53) = 8106479329266893 / 2 ^ 53"
  using double_eval [of "8106479329266893 / 2 ^ 53" "- 1" 8106479329266893]
  by (simp add: powr_neg_numeral)

lemma difference_down: "dsub 0 (double (9/10)) = - (8106479329266893 / 2 ^ 53)"
  unfolding dsub_def double_nine_tenths
  using double_minus [of "8106479329266893 / 2 ^ 53"] nine_tenths_again by simp

lemma difference_up: "dsub (double (9/10)) 0 = 8106479329266893 / 2 ^ 53"
  unfolding dsub_def double_nine_tenths using nine_tenths_again by simp

lemma delta_up:
  "dmul (5044031582654955 / 2 ^ 56) (8106479329266893 / 2 ^ 53) = 4539628424389460 / 2 ^ 56"
  unfolding dmul_def
  using double_eval [of "5044031582654955 / 2 ^ 56 * (8106479329266893 / 2 ^ 53)" "- 4"
      4539628424389460]
  by (simp add: powr_neg_numeral)

lemma delta_down:
  "dmul (5044031582654955 / 2 ^ 56) (- (8106479329266893 / 2 ^ 53))
     = - (4539628424389460 / 2 ^ 56)"
  using double_minus [of "5044031582654955 / 2 ^ 56 * (8106479329266893 / 2 ^ 53)"] delta_up
  by (simp add: dmul_def)

lemma first_opinion:
  "dadd (double (9/10)) (- (4539628424389460 / 2 ^ 56)) = 7539025776218210 / 2 ^ 53"
  unfolding dadd_def double_nine_tenths
  using double_eval [of "8106479329266893 / 2 ^ 53 + - (4539628424389460 / 2 ^ 56)" "- 1"
      7539025776218210]
  by (simp add: powr_neg_numeral)

lemma second_opinion:
  "dadd 0 (4539628424389460 / 2 ^ 56) = 4539628424389460 / 2 ^ 56"
  unfolding dadd_def
  using double_eval [of "4539628424389460 / 2 ^ 56" "- 4" 4539628424389460]
  by (simp add: powr_neg_numeral)

lemma sum_after:
  "dadd (7539025776218210 / 2 ^ 53) (4539628424389460 / 2 ^ 56) = 8106479329266892 / 2 ^ 53"
  unfolding dadd_def
  using double_eval [of "7539025776218210 / 2 ^ 53 + 4539628424389460 / 2 ^ 56" "- 1"
      8106479329266892]
  by (simp add: powr_neg_numeral)

lemma sum_before: "dadd (double (9/10)) 0 = 8106479329266893 / 2 ^ 53"
  unfolding dadd_def double_nine_tenths using nine_tenths_again by simp

lemma double_hundredth: "double (1/100) < 1/2"
proof -
  have "double (1/100) - 1/100 \<le> (\<bar>1/100\<bar> + 1) / 2 ^ 53"
    using double_error [of "1/100"] by (rule order_trans [OF abs_ge_self])
  then show ?thesis by simp
qed

lemma sds_update_double_interaction:
  assumes "\<not> uniform r < double (1/100)" and "edges (graph s) \<noteq> []"
  shows "SocialDynamicsSimulation_update_double r s =
     (case sds_interact_double s (random_choice (edges (graph s)) (choice r)) of
        Inl err \<Rightarrow> Some (Inl err)
      | Inr s' \<Rightarrow> Some (Inr (s'\<lparr>step := step s' + 1\<rparr>)))"
  using assms by (simp add: SocialDynamicsSimulation_update_double_def split: list.splits)

lemma sds_write_double_attr:
  "fst e \<noteq> snd e \<Longrightarrow> attr (graph (sds_write_double s e w)) (fst e) =
     dadd (attr (graph s) (fst e))
       (dmul (dmul (alpha (self s)) w) (dsub (attr (graph s) (snd e)) (attr (graph s) (fst e))))"
  "attr (graph (sds_write_double s e w)) (snd e) =
     dadd (attr (graph s) (snd e))
       (dmul (dmul (alpha (self s)) w) (dsub (attr (graph s) (fst e)) (attr (graph s) (snd e))))"
  by (simp_all add: sds_write_double_def set_attr_def set_weight_def Let_def)

lemma prune_double_attr: "attr (prune_double g e) = attr g"
  by (simp add: prune_double_def remove_edge_def)

lemma sds_update_double_chosen:
  assumes "\<not> uniform r < double (1/100)" and "edges (graph s) \<noteq> []"
    and "random_choice (edges (graph s)) (choice r) = e"
  shows "\<exists>s'. SocialDynamicsSimulation_update_double r s = Some (Inr s') \<and>
           attr (graph s') = attr (graph (sds_write_double s e (the (adj (graph s) (fst e) (snd e)))))"
proof -
  have "has_edge (graph s) e"
    using chosen_edge [OF assms(2), of e "choice r"] assms(3) by simp
  then obtain w where w: "adj (graph s) (fst e) (snd e) = Some w"
    by (auto simp: has_edge_def)
  show ?thesis
    using sds_update_double_interaction [OF assms(1,2)] w
    by (simp add: assms(3) sds_interact_double_def Let_def prune_double_attr)
qed

lemma rounded_sum_error:
  assumes "\<bar>x\<bar> \<le> 3" "\<bar>y\<bar> \<le> 3"
  shows "\<bar>(double x + double y) - (x + y)\<bar> \<le> 1 / 2 ^ 50"
proof -
  have "\<bar>double x - x\<bar> \<le> (\<bar>x\<bar> + 1) / 2 ^ 53" by (rule double_error)
  also have "\<dots> \<le> (3 + 1) / 2 ^ 53" using assms(1) by (intro divide_right_mono) simp_all
  finally have 1: "\<bar>double x - x\<bar> \<le> 4 / 2 ^ 53" by simp
  have "\<bar>double y - y\<bar> \<le> (\<bar>y\<bar> + 1) / 2 ^ 53" by (rule double_error)
  also have "\<dots> \<le> (3 + 1) / 2 ^ 53" using assms(2) by (intro divide_right_mono) simp_all
  finally have 2: "\<bar>double y - y\<bar> \<le> 4 / 2 ^ 53" by simp
  have "\<bar>(double x + double y) - (x + y)\<bar> = \<bar>(double x - x) + (double y - y)\<bar>"
    by (simp add: algebra_simps)
  also have "\<dots> \<le> \<bar>double x - x\<bar> + \<bar>double y - y\<bar>" by (rule abs_triangle_ineq)
  also have "\<dots> \<le> 4 / 2 ^ 53 + 4 / 2 ^ 53" using 1 2 by (rule add_mono)
  also have "\<dots> = 1 / 2 ^ 50" by simp
  finally show ?thesis .
qed

lemma opinion_delta_bound:
  assumes "in_unit a" "in_unit w" "in_unit oi" "in_unit oj"
  shows "\<bar>dmul (dmul a w) (dsub oj oi)\<bar> \<le> 2"
proof -
  have "\<bar>a * w\<bar> \<le> 1 * 1"
    unfolding abs_mult using assms(1,2) by (intro mult_mono) (simp_all add: in_unit_def)
  then have 1: "\<bar>dmul a w\<bar> \<le> 5/4"
    using double_abs_le [of "a * w" 1] by (simp add: dmul_def)
  have "\<bar>oj - oi\<bar> \<le> 1" using assms(3,4) by (simp add: in_unit_def abs_le_iff)
  then have 2: "\<bar>dsub oj oi\<bar> \<le> 5/4"
    using double_abs_le [of "oj - oi" 1] by (simp add: dsub_def)
  have "\<bar>dmul a w * dsub oj oi\<bar> \<le> 5/4 * (5/4)"
    unfolding abs_mult using 1 2 by (intro mult_mono) simp_all
  then show ?thesis
    using double_abs_le [of "dmul a w * dsub oj oi" "25/16"] by (simp add: dmul_def)
qed

lemma opinion_deltas_opposite:
  "dmul c (dsub oi oj) = - dmul c (dsub oj oi)"
proof -
  have "dsub oi oj = - dsub oj oi" using double_minus [of "oj - oi"] by (simp add: dsub_def)
  then show ?thesis using double_minus [of "c * dsub oj oi"] by (simp add: dmul_def)
qed

lemma sds_write_double_sum:
  assumes "in_unit (alpha (self s))" "in_unit w" "in_unit (attr (graph s) i)"
    "in_unit (attr (graph s) j)"
  shows "\<bar>(attr (graph (sds_write_double s (i, j) w)) i + attr (graph (sds_write_double s (i, j) w)) j)
          - (attr (graph s) i + attr (graph s) j)\<bar> \<le> 1 / 2 ^ 50"
proof -
  define oi where "oi = attr (graph s) i"
  define oj where "oj = attr (graph s) j"
  define p1 where "p1 = dmul (dmul (alpha (self s)) w) (dsub oj oi)"
  have p: "\<bar>p1\<bar> \<le> 2" unfolding p1_def oi_def oj_def using assms by (rule opinion_delta_bound)
  have o: "\<bar>oi\<bar> \<le> 1" "\<bar>oj\<bar> \<le> 1" using assms(3,4) by (simp_all add: in_unit_def oi_def oj_def)
  have j: "attr (graph (sds_write_double s (i, j) w)) j = double (oj - p1)"
    using sds_write_double_attr(2) [of s "(i, j)" w] opinion_deltas_opposite [of _ oi oj]
    by (simp add: oi_def oj_def p1_def dadd_def)
  show ?thesis
  proof (cases "i = j")
    case False
    then have i: "attr (graph (sds_write_double s (i, j) w)) i = double (oi + p1)"
      using sds_write_double_attr(1) [of "(i, j)" s w]
      by (simp add: oi_def oj_def p1_def dadd_def)
    have "\<bar>(double (oi + p1) + double (oj - p1)) - ((oi + p1) + (oj - p1))\<bar> \<le> 1 / 2 ^ 50"
      using p o by (intro rounded_sum_error) simp_all
    then show ?thesis by (simp add: i j oi_def [symmetric] oj_def [symmetric])
  next
    case True
    have "\<bar>(double (oj - p1) + double (oj - p1)) - ((oj - p1) + (oj - p1))\<bar> \<le> 1 / 2 ^ 50"
      using p o by (intro rounded_sum_error) simp_all
    moreover have "p1 = 0" using True by (simp add: p1_def oi_def oj_def dsub_def dmul_def double_zero)
    ultimately show ?thesis using True j by (simp add: oj_def [symmetric])
  qed
qed

text \<open>
  Claim C4, amended.  For opinions, weight and \<open>alpha\<close> in \<open>[0,1]\<close>, one interaction of the
  scalar class in double arithmetic conserves the sum of the two endpoint opinions up to
  rounding: the sum of the two stored opinions differs from the sum before by at most
  \<open>2^-50\<close>.  (The two opinion changes are exactly opposite; the two final additions round
  independently.)
\<close>

theorem opinion_sum_conserved_up_to_rounding:
  assumes "\<not> uniform r < double (1/100)" and "edges (graph s) \<noteq> []"
    and "random_choice (edges (graph s)) (choice r) = (i, j)"
    and "in_unit (alpha (self s))" and "in_unit (the (adj (graph s) i j))"
    and "in_unit (attr (graph s) i)" and "in_unit (attr (graph s) j)"
  shows "\<exists>s'. SocialDynamicsSimulation_update_double r s = Some (Inr s') \<and>
           \<bar>(attr (graph s') i + attr (graph s') j) - (attr (graph s) i + attr (graph s) j)\<bar>
             \<le> 1 / 2 ^ 50"
  using sds_update_double_chosen [OF assms(1-3)]
    sds_write_double_sum [OF assms(4) assms(5) assms(6) assms(7)]
  by auto


lemma sds_pair_step_double:
  "SocialDynamicsSimulation_update_double draw_interact (sds_pair p a b w) =
     Some (Inr ((sds_write_double (sds_pair p a b w) (0, 1) w)
        \<lparr>graph := prune_double (graph (sds_write_double (sds_pair p a b w) (0, 1) w)) (0, 1),
          step := 1\<rparr>))"
proof -
  have u: "\<not> uniform draw_interact < double (1/100)"
    using double_hundredth by (simp add: draw_interact_def)
  have ne: "edges (graph (sds_pair p a b w)) \<noteq> []" by (simp add: edges_pair)
  have c: "random_choice (edges (graph (sds_pair p a b w))) (choice draw_interact) = (0, 1)"
    by (simp add: edges_pair random_choice_def)
  have w: "adj (graph (sds_pair p a b w)) 0 1 = Some w"
    by (simp add: sds_pair_def put_weight_def)
  have st: "step (sds_pair p a b w) = 0" by (simp add: sds_pair_def)
  show ?thesis
    using sds_update_double_interaction [OF u ne] w
    by (simp add: c sds_interact_double_def Let_def sds_write_double_def st)
qed

lemma sds_pair_after_double:
  "sds_opinion_after (SocialDynamicsSimulation_update_double draw_interact (sds_pair p a b w)) 0
     = Some (dadd a (dmul (dmul (alpha p) w) (dsub b a)))"
  "sds_opinion_after (SocialDynamicsSimulation_update_double draw_interact (sds_pair p a b w)) 1
     = Some (dadd b (dmul (dmul (alpha p) w) (dsub a b)))"
  unfolding sds_pair_step_double
  by (simp_all add: sds_opinion_after_def sds_write_double_def prune_double_attr
      set_weight_def set_attr_def sds_pair_def Let_def)

text \<open>
  Claim C4, as stated, fails.  With the floats \<open>alpha = 0.1\<close>, \<open>w = 0.7\<close>, opinions \<open>0.9\<close> and
  \<open>0.0\<close>, the update stores the doubles \<open>0.837\<close> and \<open>0.063\<close>; their sum is not the sum
  before, neither as real numbers nor as the float sums \<^verbatim>\<open>0.837 + 0.063\<close> and \<^verbatim>\<open>0.9 + 0.0\<close>
  (\<open>0.8999999999999999\<close> and \<open>0.9\<close>).
\<close>

theorem opinion_sum_not_conserved_exactly:
  "sds_opinion_after (SocialDynamicsSimulation_update_double draw_interact
       (sds_pair sds_tenth (double (9/10)) 0 (double (7/10)))) 0
     = Some (7539025776218210 / 2 ^ 53) \<and>
   sds_opinion_after (SocialDynamicsSimulation_update_double draw_interact
       (sds_pair sds_tenth (double (9/10)) 0 (double (7/10)))) 1
     = Some (4539628424389460 / 2 ^ 56) \<and>
   7539025776218210 / 2 ^ 53 + 4539628424389460 / 2 ^ 56 \<noteq> double (9/10) + 0 \<and>
   dadd (7539025776218210 / 2 ^ 53) (4539628424389460 / 2 ^ 56) \<noteq> dadd (double (9/10)) 0"
proof -
  have a: "alpha sds_tenth = double (1/10)" by (simp add: sds_tenth_def)
  have 1: "dadd (double (9/10))
      (dmul (dmul (alpha sds_tenth) (double (7/10))) (dsub 0 (double (9/10))))
      = 7539025776218210 / 2 ^ 53"
    by (simp only: a rate_times_weight difference_down delta_down first_opinion)
  have 2: "dadd 0 (dmul (dmul (alpha sds_tenth) (double (7/10))) (dsub (double (9/10)) 0))
      = 4539628424389460 / 2 ^ 56"
    by (simp only: a rate_times_weight difference_up delta_up second_opinion)
  have 3: "(7539025776218210 / 2 ^ 53 + 4539628424389460 / 2 ^ 56 :: real) \<noteq> double (9/10) + 0"
    by (simp add: double_nine_tenths)
  have 4: "dadd (7539025776218210 / 2 ^ 53) (4539628424389460 / 2 ^ 56) \<noteq> dadd (double (9/10)) 0"
    unfolding sum_after sum_before by simp
  show ?thesis unfolding sds_pair_after_double 1 2 using 3 4 by simp
qed

text \<open>The bound at the same input.\<close>

theorem opinion_sum_conserved_up_to_rounding_witness:
  "\<not> uniform draw_interact < double (1/100) \<and>
   edges (graph (sds_pair sds_tenth (double (9/10)) 0 (double (7/10)))) \<noteq> [] \<and>
   random_choice (edges (graph (sds_pair sds_tenth (double (9/10)) 0 (double (7/10)))))
     (choice draw_interact) = (0, 1) \<and>
   in_unit (alpha (self (sds_pair sds_tenth (double (9/10)) 0 (double (7/10))))) \<and>
   in_unit (the (adj (graph (sds_pair sds_tenth (double (9/10)) 0 (double (7/10)))) 0 1)) \<and>
   in_unit (attr (graph (sds_pair sds_tenth (double (9/10)) 0 (double (7/10)))) 0) \<and>
   in_unit (attr (graph (sds_pair sds_tenth (double (9/10)) 0 (double (7/10)))) 1) \<and>
   (\<exists>s'. SocialDynamicsSimulation_update_double draw_interact
            (sds_pair sds_tenth (double (9/10)) 0 (double (7/10))) = Some (Inr s') \<and>
      \<bar>(attr (graph s') 0 + attr (graph s') 1) -
        (attr (graph (sds_pair sds_tenth (double (9/10)) 0 (double (7/10)))) 0 +
         attr (graph (sds_pair sds_tenth (double (9/10)) 0 (double (7/10)))) 1)\<bar>
        \<le> 1 / 2 ^ 50)"
proof -
  let ?s = "sds_pair sds_tenth (double (9/10)) 0 (double (7/10))"
  have u: "\<not> uniform draw_interact < double (1/100)"
    using double_hundredth by (simp add: draw_interact_def)
  have ne: "edges (graph ?s) \<noteq> []" by (simp add: edges_pair)
  have c: "random_choice (edges (graph ?s)) (choice draw_interact) = (0, 1)"
    by (simp add: edges_pair random_choice_def)
  have r: "in_unit (alpha (self ?s))" "in_unit (the (adj (graph ?s) 0 1))"
    "in_unit (attr (graph ?s) 0)" "in_unit (attr (graph ?s) 1)"
    by (simp_all add: sds_pair_def sds_tenth_def put_weight_def in_unit_def
        double_tenth double_seven_tenths double_nine_tenths)
  show ?thesis using opinion_sum_conserved_up_to_rounding [OF u ne c r] u ne c r by blast
qed

end
